theory Spec2Isabelle
  imports Main
begin

section \<open>Strings of the JavaScript platform\<close>

text \<open>
  A JavaScript string is modelled as a \<^typ>\<open>string\<close> holding its text in UTF-8, so
  that the ASCII characters the program splits on (comma, colon, line feed) are single
  characters of the model. Strings are taken to be well-formed Unicode.

  \<^verbatim>\<open>s.split(c)\<close> with a one-character separator never returns an empty array:
  the empty string splits into one empty piece. \<^verbatim>\<open>xs.join(sep)\<close> is the
  inverse direction. \<^verbatim>\<open>s.trim()\<close> removes the WhiteSpace and LineTerminator code
  points of ECMAScript (listed in \<open>white_space\<close> by their UTF-8 encodings) from both
  ends.
\<close>

abbreviation NL :: string where "NL \<equiv> [CHR 0x0A]"

fun split_on :: "char \<Rightarrow> string \<Rightarrow> string list" where
  "split_on c [] = [[]]"
| "split_on c (x # xs) =
     (if x = c then [] # split_on c xs
      else (case split_on c xs of [] \<Rightarrow> [[x]] | y # ys \<Rightarrow> (x # y) # ys))"

fun join :: "string \<Rightarrow> string list \<Rightarrow> string" where
  "join sep [] = []"
| "join sep [x] = x"
| "join sep (x # y # ys) = x @ sep @ join sep (y # ys)"

definition white_space :: "string list" where
  "white_space =
     [[CHR 0x09], [CHR 0x0A], [CHR 0x0B], [CHR 0x0C], [CHR 0x0D], [CHR 0x20],
      [CHR 0xC2, CHR 0xA0], [CHR 0xE1, CHR 0x9A, CHR 0x80],
      [CHR 0xE2, CHR 0x80, CHR 0x80], [CHR 0xE2, CHR 0x80, CHR 0x81],
      [CHR 0xE2, CHR 0x80, CHR 0x82], [CHR 0xE2, CHR 0x80, CHR 0x83],
      [CHR 0xE2, CHR 0x80, CHR 0x84], [CHR 0xE2, CHR 0x80, CHR 0x85],
      [CHR 0xE2, CHR 0x80, CHR 0x86], [CHR 0xE2, CHR 0x80, CHR 0x87],
      [CHR 0xE2, CHR 0x80, CHR 0x88], [CHR 0xE2, CHR 0x80, CHR 0x89],
      [CHR 0xE2, CHR 0x80, CHR 0x8A], [CHR 0xE2, CHR 0x80, CHR 0xA8],
      [CHR 0xE2, CHR 0x80, CHR 0xA9], [CHR 0xE2, CHR 0x80, CHR 0xAF],
      [CHR 0xE2, CHR 0x81, CHR 0x9F], [CHR 0xE3, CHR 0x80, CHR 0x80],
      [CHR 0xEF, CHR 0xBB, CHR 0xBF]]"

definition starts_with :: "string \<Rightarrow> string \<Rightarrow> bool" where
  "starts_with s t = (t \<noteq> [] \<and> take (length t) s = t)"

function strip_start :: "string list \<Rightarrow> string \<Rightarrow> string" where
  "strip_start toks s =
     (case find (starts_with s) toks of
        None \<Rightarrow> s
      | Some t \<Rightarrow> strip_start toks (drop (length t) s))"
  by pat_completeness auto
termination
proof (relation "measure (\<lambda>(toks, s). length s)")
  show "wf (measure (\<lambda>(toks, s). length s))" by simp
next
  fix toks :: "string list" and s t :: string
  assume "find (starts_with s) toks = Some t"
  then have "starts_with s t" by (auto simp: find_Some_iff)
  then have "t \<noteq> []" and "take (length t) s = t" by (auto simp: starts_with_def)
  then have "s \<noteq> []" and "0 < length t" by auto
  then show "((toks, drop (length t) s), (toks, s)) \<in> measure (\<lambda>(toks, s). length s)"
    by simp
qed

declare strip_start.simps [simp del]

definition trimStart :: "string \<Rightarrow> string" where
  "trimStart s = strip_start white_space s"

definition trimEnd :: "string \<Rightarrow> string" where
  "trimEnd s = rev (strip_start (map rev white_space) (rev s))"

definition trim :: "string \<Rightarrow> string" where
  "trim s = trimEnd (trimStart s)"


section \<open>JSON values, \<^verbatim>\<open>JSON.parse\<close> and \<^verbatim>\<open>JSON.stringify\<close>\<close>

text \<open>
  The configuration file is written with \<^verbatim>\<open>JSON.stringify(answers, null, 2)\<close> and read
  with \<^verbatim>\<open>JSON.parse\<close>. Both are built into the platform; they are modelled after
  ECMA-262 (the JSON grammar of ECMA-404). A number is kept as its literal text: the
  configuration holds no number, and the floating-point value of a literal is not
  modelled. An object is the list of its members in textual order; a repeated key keeps
  every member, and property access (\<open>get_prop\<close> below) reads the last one, as the
  parsed JavaScript object does.

  The parser is a recursive descent over the text. The length tests that guard the
  recursive calls after a comma or a colon always succeed (a value or a key has been
  consumed before); they make the recursion well-founded without changing the result.
\<close>

datatype json =
    JNull
  | JBool bool
  | JNum string
  | JStr string
  | JArr "json list"
  | JObj "(string \<times> json) list"

definition hex_val :: "char \<Rightarrow> nat option" where
  "hex_val c =
     (let n = (of_char c :: nat) in
      if 48 \<le> n \<and> n \<le> 57 then Some (n - 48)
      else if 97 \<le> n \<and> n \<le> 102 then Some (n - 87)
      else if 65 \<le> n \<and> n \<le> 70 then Some (n - 55)
      else None)"

fun hex4 :: "string \<Rightarrow> (nat \<times> string) option" where
  "hex4 (a # b # c # d # r) =
     (case (hex_val a, hex_val b, hex_val c, hex_val d) of
        (Some h3, Some h2, Some h1, Some h0) \<Rightarrow> Some (4096 * h3 + 256 * h2 + 16 * h1 + h0, r)
      | _ \<Rightarrow> None)"
| "hex4 _ = None"

definition utf8 :: "nat \<Rightarrow> string" where
  "utf8 n =
     (if n < 0x80 then [char_of n]
      else if n < 0x800 then [char_of (0xC0 + n div 64), char_of (0x80 + n mod 64)]
      else if n < 0x10000 then
        [char_of (0xE0 + n div 4096), char_of (0x80 + n div 64 mod 64), char_of (0x80 + n mod 64)]
      else
        [char_of (0xF0 + n div 262144), char_of (0x80 + n div 4096 mod 64),
         char_of (0x80 + n div 64 mod 64), char_of (0x80 + n mod 64)])"

definition unicode_escape :: "string \<Rightarrow> (string \<times> string) option" where
  "unicode_escape r =
     (case hex4 r of
        None \<Rightarrow> None
      | Some (n, r1) \<Rightarrow>
          (if 0xD800 \<le> n \<and> n < 0xDC00 \<and> take 2 r1 = [CHR 0x5C, CHR ''u''] then
             (case hex4 (drop 2 r1) of
                Some (m, r2) \<Rightarrow>
                  (if 0xDC00 \<le> m \<and> m < 0xE000
                   then Some (utf8 (0x10000 + (n - 0xD800) * 0x400 + (m - 0xDC00)), r2)
                   else Some (utf8 n, r1))
              | None \<Rightarrow> Some (utf8 n, r1))
           else Some (utf8 n, r1)))"

definition simple_escape :: "char \<Rightarrow> char option" where
  "simple_escape e =
     (if e = CHR 0x22 then Some (CHR 0x22)
      else if e = CHR 0x5C then Some (CHR 0x5C)
      else if e = CHR ''/'' then Some (CHR ''/'')
      else if e = CHR ''b'' then Some (CHR 0x08)
      else if e = CHR ''f'' then Some (CHR 0x0C)
      else if e = CHR ''n'' then Some (CHR 0x0A)
      else if e = CHR ''r'' then Some (CHR 0x0D)
      else if e = CHR ''t'' then Some (CHR 0x09)
      else None)"

function parse_chars :: "string \<Rightarrow> (string \<times> string) option" where
  "parse_chars [] = None"
| "parse_chars (c # r) =
     (if c = CHR 0x22 then Some ([], r)
      else if c = CHR 0x5C then
        (case r of
           [] \<Rightarrow> None
         | e # r1 \<Rightarrow>
             (if e = CHR ''u'' then
                (case unicode_escape r1 of
                   None \<Rightarrow> None
                 | Some (u, r2) \<Rightarrow>
                     (if length r2 < length r then
                        (case parse_chars r2 of None \<Rightarrow> None | Some (s, r3) \<Rightarrow> Some (u @ s, r3))
                      else None))
              else
                (case simple_escape e of
                   None \<Rightarrow> None
                 | Some x \<Rightarrow>
                     (case parse_chars r1 of None \<Rightarrow> None | Some (s, r3) \<Rightarrow> Some (x # s, r3)))))
      else if (of_char c :: nat) < 0x20 then None
      else (case parse_chars r of None \<Rightarrow> None | Some (s, r3) \<Rightarrow> Some (c # s, r3)))"
  by pat_completeness auto
termination
  by (relation "measure length") auto

definition is_digit :: "char \<Rightarrow> bool" where
  "is_digit c = (48 \<le> (of_char c :: nat) \<and> (of_char c :: nat) \<le> 57)"

definition parse_int_part :: "string \<Rightarrow> (string \<times> string) option" where
  "parse_int_part s =
     (case s of
        [] \<Rightarrow> None
      | c # r \<Rightarrow>
          (if c = CHR ''0'' then Some ([c], r)
           else if is_digit c then Some (c # takeWhile is_digit r, dropWhile is_digit r)
           else None))"

definition parse_frac :: "string \<Rightarrow> (string \<times> string) option" where
  "parse_frac s =
     (case s of
        [] \<Rightarrow> Some ([], s)
      | c # r \<Rightarrow>
          (if c = CHR ''.'' then
             (if takeWhile is_digit r = [] then None
              else Some (c # takeWhile is_digit r, dropWhile is_digit r))
           else Some ([], s)))"

definition parse_exp :: "string \<Rightarrow> (string \<times> string) option" where
  "parse_exp s =
     (case s of
        [] \<Rightarrow> Some ([], s)
      | c # r \<Rightarrow>
          (if c = CHR ''e'' \<or> c = CHR ''E'' then
             (let sg = (case r of [] \<Rightarrow> [] | x # _ \<Rightarrow> if x = CHR ''+'' \<or> x = CHR ''-'' then [x] else []);
                  r1 = drop (length sg) r
              in if takeWhile is_digit r1 = [] then None
                 else Some (c # sg @ takeWhile is_digit r1, dropWhile is_digit r1))
           else Some ([], s)))"

definition parse_number :: "string \<Rightarrow> (string \<times> string) option" where
  "parse_number s =
     (let sg = (case s of [] \<Rightarrow> [] | x # _ \<Rightarrow> if x = CHR ''-'' then [x] else [])
      in case parse_int_part (drop (length sg) s) of
           None \<Rightarrow> None
         | Some (i, r1) \<Rightarrow>
             (case parse_frac r1 of
                None \<Rightarrow> None
              | Some (f, r2) \<Rightarrow>
                  (case parse_exp r2 of
                     None \<Rightarrow> None
                   | Some (e, r3) \<Rightarrow> Some (sg @ i @ f @ e, r3))))"

definition json_ws :: "char \<Rightarrow> bool" where
  "json_ws c = (c = CHR 0x20 \<or> c = CHR 0x09 \<or> c = CHR 0x0A \<or> c = CHR 0x0D)"

definition skip_ws :: "string \<Rightarrow> string" where
  "skip_ws s = dropWhile json_ws s"

definition literal :: "string \<Rightarrow> string \<Rightarrow> string option" where
  "literal t s = (if take (length t) s = t then Some (drop (length t) s) else None)"

lemma length_skip_ws: "length (skip_ws s) \<le> length s"
  by (simp add: skip_ws_def length_dropWhile_le)

lemma skip_ws_Cons_length: "skip_ws s = c # r \<Longrightarrow> length r < length s"
  using length_skip_ws [of s] by simp

function parse_value :: "string \<Rightarrow> (json \<times> string) option"
  and parse_elements :: "string \<Rightarrow> (json list \<times> string) option"
  and parse_members :: "string \<Rightarrow> ((string \<times> json) list \<times> string) option"
where
  "parse_value s =
     (case skip_ws s of
        [] \<Rightarrow> None
      | c # r \<Rightarrow>
          (if c = CHR ''{'' then
             (case skip_ws r of
                [] \<Rightarrow> None
              | d # r1 \<Rightarrow>
                  (if d = CHR ''}'' then Some (JObj [], r1)
                   else (case parse_members r of
                           None \<Rightarrow> None
                         | Some (ms, r2) \<Rightarrow> Some (JObj ms, r2))))
           else if c = CHR ''['' then
             (case skip_ws r of
                [] \<Rightarrow> None
              | d # r1 \<Rightarrow>
                  (if d = CHR '']'' then Some (JArr [], r1)
                   else (case parse_elements r of
                           None \<Rightarrow> None
                         | Some (vs, r2) \<Rightarrow> Some (JArr vs, r2))))
           else if c = CHR 0x22 then
             (case parse_chars r of None \<Rightarrow> None | Some (str, r1) \<Rightarrow> Some (JStr str, r1))
           else if c = CHR ''t'' then
             (case literal ''true'' (c # r) of None \<Rightarrow> None | Some r1 \<Rightarrow> Some (JBool True, r1))
           else if c = CHR ''f'' then
             (case literal ''false'' (c # r) of None \<Rightarrow> None | Some r1 \<Rightarrow> Some (JBool False, r1))
           else if c = CHR ''n'' then
             (case literal ''null'' (c # r) of None \<Rightarrow> None | Some r1 \<Rightarrow> Some (JNull, r1))
           else
             (case parse_number (c # r) of None \<Rightarrow> None | Some (num, r1) \<Rightarrow> Some (JNum num, r1))))"
| "parse_elements s =
     (case parse_value s of
        None \<Rightarrow> None
      | Some (v, r) \<Rightarrow>
          (case skip_ws r of
             [] \<Rightarrow> None
           | c # r1 \<Rightarrow>
               (if c = CHR '']'' then Some ([v], r1)
                else if c = CHR '','' \<and> length r1 < length s then
                  (case parse_elements r1 of
                     None \<Rightarrow> None
                   | Some (vs, r2) \<Rightarrow> Some (v # vs, r2))
                else None)))"
| "parse_members s =
     (case skip_ws s of
        [] \<Rightarrow> None
      | q # r \<Rightarrow>
          (if q = CHR 0x22 then
             (case parse_chars r of
                None \<Rightarrow> None
              | Some (k, r1) \<Rightarrow>
                  (case skip_ws r1 of
                     [] \<Rightarrow> None
                   | c # r2 \<Rightarrow>
                       (if c = CHR '':'' \<and> length r2 < length s then
                          (case parse_value r2 of
                             None \<Rightarrow> None
                           | Some (v, r3) \<Rightarrow>
                               (case skip_ws r3 of
                                  [] \<Rightarrow> None
                                | e # r4 \<Rightarrow>
                                    (if e = CHR ''}'' then Some ([(k, v)], r4)
                                     else if e = CHR '','' \<and> length r4 < length s then
                                       (case parse_members r4 of
                                          None \<Rightarrow> None
                                        | Some (ms, r5) \<Rightarrow> Some ((k, v) # ms, r5))
                                     else None)))
                        else None)))
           else None))"
  by pat_completeness auto

termination
  apply (relation "measure (\<lambda>x. case x of Inl s \<Rightarrow> 2 * length s + 1
                                  | Inr (Inl s) \<Rightarrow> 2 * length s + 2
                                  | Inr (Inr s) \<Rightarrow> 2 * length s + 2)")
       apply (auto dest!: skip_ws_Cons_length)
  done

declare parse_value.simps [simp del] parse_elements.simps [simp del]
  parse_members.simps [simp del]

definition JSON_parse :: "string \<Rightarrow> json option" where
  "JSON_parse text =
     (case parse_value text of
        None \<Rightarrow> None
      | Some (v, r) \<Rightarrow> if skip_ws r = [] then Some v else None)"



text \<open>
  \<^verbatim>\<open>JSON.stringify(value, null, 2)\<close>: members and elements on lines of their own,
  indented by two spaces per nesting level; an empty array or object is printed closed.
  Strings are quoted as QuoteJSONString does.
\<close>

definition hex_digit :: "nat \<Rightarrow> char" where
  "hex_digit d = (if d < 10 then char_of (48 + d) else char_of (87 + d))"

definition quote_char :: "char \<Rightarrow> string" where
  "quote_char c =
     (if c = CHR 0x08 then [CHR 0x5C, CHR ''b'']
      else if c = CHR 0x09 then [CHR 0x5C, CHR ''t'']
      else if c = CHR 0x0A then [CHR 0x5C, CHR ''n'']
      else if c = CHR 0x0C then [CHR 0x5C, CHR ''f'']
      else if c = CHR 0x0D then [CHR 0x5C, CHR ''r'']
      else if c = CHR 0x22 then [CHR 0x5C, CHR 0x22]
      else if c = CHR 0x5C then [CHR 0x5C, CHR 0x5C]
      else if (of_char c :: nat) < 0x20 then
        [CHR 0x5C, CHR ''u'', CHR ''0'', CHR ''0'',
         hex_digit ((of_char c :: nat) div 16), hex_digit ((of_char c :: nat) mod 16)]
      else [c])"

definition quote :: "string \<Rightarrow> string" where
  "quote s = [CHR 0x22] @ concat (map quote_char s) @ [CHR 0x22]"

definition indent :: "nat \<Rightarrow> string" where
  "indent d = replicate (2 * d) (CHR '' '')"

fun stringify :: "nat \<Rightarrow> json \<Rightarrow> string" where
  "stringify d JNull = ''null''"
| "stringify d (JBool b) = (if b then ''true'' else ''false'')"
| "stringify d (JNum n) = n"
| "stringify d (JStr s) = quote s"
| "stringify d (JArr vs) =
     (if vs = [] then ''[]''
      else ''['' @ NL @ indent (Suc d)
           @ join ('','' @ NL @ indent (Suc d)) (map (stringify (Suc d)) vs)
           @ NL @ indent d @ '']'')"
| "stringify d (JObj ms) =
     (if ms = [] then ''{}''
      else ''{'' @ NL @ indent (Suc d)
           @ join ('','' @ NL @ indent (Suc d))
               (map (\<lambda>m. quote (fst m) @ '': '' @ stringify (Suc d) (snd m)) ms)
           @ NL @ indent d @ ''}'')"

definition JSON_stringify :: "json \<Rightarrow> string" where
  "JSON_stringify v = stringify 0 v"

text \<open>
  Reading a property of a parsed value: \<^verbatim>\<open>null.k\<close> throws a TypeError; an object
  gives the member (the last one of that key) or \<^verbatim>\<open>undefined\<close>, written
  \<^term>\<open>None\<close>; every other value has none of the properties this program reads
  (\<^verbatim>\<open>aiProvider\<close>, \<^verbatim>\<open>apiToken\<close>, \<^verbatim>\<open>commitTypes\<close>, \<^verbatim>\<open>name\<close>,
  \<^verbatim>\<open>description\<close>).
\<close>

datatype js_error =
    SyntaxError
  | TypeError
  | RejectedWith string
  | FsError string
  | ApiError string

definition get_prop :: "json \<Rightarrow> string \<Rightarrow> js_error + json option" where
  "get_prop v k =
     (case v of
        JNull \<Rightarrow> Inl TypeError
      | JObj ms \<Rightarrow> Inr (map_of (rev ms) k)
      | _ \<Rightarrow> Inr None)"

text \<open>
  The string a template literal inserts for a value (ToString). An array is the join of
  its elements with commas, \<^verbatim>\<open>null\<close> elements empty; a plain object is
  \<^verbatim>\<open>[object Object]\<close>, unless it has a member \<^verbatim>\<open>toString\<close> of its own, which is
  not callable and makes the conversion throw a TypeError (\<^term>\<open>None\<close>). A number
  prints as the platform prints the double its literal denotes (\<^verbatim>\<open>1.0\<close> as
  \<^verbatim>\<open>1\<close>, \<^verbatim>\<open>1e2\<close> as \<^verbatim>\<open>100\<close>); floating point is not modelled, so that
  printer is the parameter \<open>num\<close>, supplied by the world.
\<close>

fun to_string :: "(string \<Rightarrow> string) \<Rightarrow> json \<Rightarrow> string option"
  and to_strings :: "(string \<Rightarrow> string) \<Rightarrow> json list \<Rightarrow> string list option"
where
  "to_string num JNull = Some ''null''"
| "to_string num (JBool b) = Some (if b then ''true'' else ''false'')"
| "to_string num (JNum n) = Some (num n)"
| "to_string num (JStr s) = Some s"
| "to_string num (JArr vs) = map_option (join '','') (to_strings num vs)"
| "to_string num (JObj ms) =
     (if ''toString'' \<in> set (map fst ms) then None else Some ''[object Object]'')"
| "to_strings num [] = Some []"
| "to_strings num (v # vs) =
     (case (if v = JNull then Some [] else to_string num v) of
        None \<Rightarrow> None
      | Some x \<Rightarrow> map_option ((#) x) (to_strings num vs))"

definition template_value :: "(string \<Rightarrow> string) \<Rightarrow> json option \<Rightarrow> string option" where
  "template_value num v =
     (case v of None \<Rightarrow> Some ''undefined'' | Some j \<Rightarrow> to_string num j)"

section \<open>The world of one run, and its effects\<close>

text \<open>
  Everything the program asks of its surroundings is a field of the world: the parsed
  command line, the home directory, the readable files (\<open>fs_files\<close>) and the paths
  that exist without being readable as a file (\<open>fs_unreadable\<close>: a directory, a file
  without read permission), the answer of the shell to each command line handed to
  \<^verbatim>\<open>exec\<close> (the three arguments of its callback), the printer of numbers, the
  generation service, and what the user answers. \<^verbatim>\<open>fs.access\<close> succeeds on every
  path that exists; \<^verbatim>\<open>fs.readFile\<close> only on a readable file. A run leaves a trace of events, in
  order, and ends like the promise of its \<^verbatim>\<open>async\<close> function: resolved with a
  value, rejected with an error, or never settled (\<open>Pending\<close>: a prompt whose input
  the validation refuses keeps asking). The colours that \<^verbatim>\<open>chalk\<close> adds to the
  console output are left out.
\<close>

record exec_result =
  error :: "string option"
  stdout :: string
  stderr :: string

record commit_type =
  name :: "string option"
  description :: "string option"
  checked :: "bool option"

record setup_user =
  choose_provider :: nat
  enter_token :: string
  tick_types :: "bool list"
  enter_custom :: string

record world =
  argv_S :: "bool option"
  argv_setup :: "bool option"
  os_homedir :: string
  fs_files :: "string \<Rightarrow> string option"
  fs_unreadable :: "string \<Rightarrow> bool"
  fs_writable :: "string \<Rightarrow> bool"
  child_exec :: "string \<Rightarrow> exec_result"
  Number_toString :: "string \<Rightarrow> string"
  Anthropic_new :: "json option \<Rightarrow> string option"
  messages_create :: "json option \<Rightarrow> string \<Rightarrow> string + string"
  user_setup :: setup_user
  user_confirm :: bool

datatype event =
    Log string
  | Warn string
  | Access string
  | ReadFile string
  | WriteFile string string
  | Exec string
  | ApiCall "json option" string
  | Ask string

datatype 'a completion = Resolved 'a | Rejected js_error | Pending

type_synonym 'a io = "event list \<times> 'a completion"

definition then_io :: "'a io \<Rightarrow> ('a \<Rightarrow> 'b io) \<Rightarrow> 'b io" where
  "then_io m f =
     (case m of
        (es, Resolved x) \<Rightarrow> (case f x of (es', r) \<Rightarrow> (es @ es', r))
      | (es, Rejected e) \<Rightarrow> (es, Rejected e)
      | (es, Pending) \<Rightarrow> (es, Pending))"

definition console_log :: "string \<Rightarrow> unit io" where
  "console_log s = ([Log s], Resolved ())"

definition console_warn :: "string \<Rightarrow> unit io" where
  "console_warn s = ([Warn s], Resolved ())"

definition fs_access :: "world \<Rightarrow> string \<Rightarrow> unit io" where
  "fs_access w p =
     ([Access p],
      if fs_files w p = None \<and> \<not> fs_unreadable w p then Rejected (FsError p)
      else Resolved ())"

definition fs_readFile :: "world \<Rightarrow> string \<Rightarrow> string io" where
  "fs_readFile w p =
     ([ReadFile p], case fs_files w p of None \<Rightarrow> Rejected (FsError p) | Some text \<Rightarrow> Resolved text)"

definition fs_writeFile :: "world \<Rightarrow> string \<Rightarrow> string \<Rightarrow> world io" where
  "fs_writeFile w p text =
     ([WriteFile p text],
      if fs_writable w p then Resolved (w\<lparr>fs_files := (fs_files w)(p \<mapsto> text)\<rparr>)
      else Rejected (FsError p))"

definition exec :: "world \<Rightarrow> string \<Rightarrow> exec_result io" where
  "exec w command = ([Exec command], Resolved (child_exec w command))"

text \<open>
  \<^verbatim>\<open>exec\<close> runs its command line with \<^verbatim>\<open>/bin/sh -c\<close>, and the words the shell
  makes of the line are the arguments the program started receives. \<open>sh_words\<close>
  gives these words for a line of blanks, plain characters and double-quoted text,
  after the Shell Command Language of POSIX (token recognition, double quotes, quote
  removal): outside quotes a blank ends a word; a double quote opens text whose
  characters stand for themselves up to the closing quote, but for the backslash, which
  there escapes \<^verbatim>\<open>$\<close>, the backquote, the double quote and itself and joins lines;
  text next to a quoted part belongs to the same word. \<^term>\<open>None\<close> stands for a line
  outside this fragment (an expansion with \<^verbatim>\<open>$\<close> or backquotes, any other operator)
  or one the shell refuses (a quote left open).
\<close>

definition sh_blank :: "char \<Rightarrow> bool" where
  "sh_blank c = (c = CHR '' '' \<or> c = CHR 0x09)"

definition sh_plain :: "char \<Rightarrow> bool" where
  "sh_plain c =
     (let n = (of_char c :: nat)
      in (48 \<le> n \<and> n \<le> 57) \<or> (65 \<le> n \<and> n \<le> 90) \<or> (97 \<le> n \<and> n \<le> 122)
         \<or> c \<in> set ''-_.,:/+@'')"

fun sh_words :: "string option \<Rightarrow> string \<Rightarrow> string list option"
  and sh_dquote :: "string \<Rightarrow> string \<Rightarrow> string list option"
where
  "sh_words word [] = Some (case word of None \<Rightarrow> [] | Some w \<Rightarrow> [w])"
| "sh_words word (c # cs) =
     (if sh_blank c then
        (case word of
           None \<Rightarrow> sh_words None cs
         | Some w \<Rightarrow> map_option ((#) w) (sh_words None cs))
      else if c = CHR 0x22 then sh_dquote (case word of None \<Rightarrow> [] | Some w \<Rightarrow> w) cs
      else if sh_plain c then sh_words (Some ((case word of None \<Rightarrow> [] | Some w \<Rightarrow> w) @ [c])) cs
      else None)"
| "sh_dquote w [] = None"
| "sh_dquote w [c] = (if c = CHR 0x22 then Some [w] else None)"
| "sh_dquote w (c # e # cs) =
     (if c = CHR 0x22 then sh_words (Some w) (e # cs)
      else if c = CHR ''$'' \<or> c = CHR 0x60 then None
      else if c = CHR 0x5C then
        (if e = CHR ''$'' \<or> e = CHR 0x60 \<or> e = CHR 0x22 \<or> e = CHR 0x5C then sh_dquote (w @ [e]) cs
         else if e = CHR 0x0A then sh_dquote w cs
         else sh_dquote (w @ [c, e]) cs)
      else sh_dquote (w @ [c]) (e # cs))"

definition nth_opt :: "'a list \<Rightarrow> nat \<Rightarrow> 'a option" where
  "nth_opt xs i = (if i < length xs then Some (xs ! i) else None)"

definition truthy :: "string option \<Rightarrow> bool" where
  "truthy v = (case v of None \<Rightarrow> False | Some s \<Rightarrow> s \<noteq> [])"

text \<open>
  \<^verbatim>\<open>path.join(a, b)\<close> of the POSIX flavour of the platform: the non-empty arguments
  joined with a slash, then normalised as \<^verbatim>\<open>path.normalize\<close> does. Empty and
  \<^verbatim>\<open>.\<close> segments are dropped; \<^verbatim>\<open>..\<close> removes the segment before it, is dropped
  at the root of an absolute path, and is kept at the start of a relative one; a
  trailing slash is kept.
\<close>

definition normalize_step :: "bool \<Rightarrow> string list \<Rightarrow> string \<Rightarrow> string list" where
  "normalize_step allowAboveRoot res segment =
     (if segment = [] \<or> segment = ''.'' then res
      else if segment = ''..'' then
        (if res \<noteq> [] \<and> last res \<noteq> ''..'' then butlast res
         else if allowAboveRoot then res @ [''..'']
         else res)
      else res @ [segment])"

definition normalizeString :: "string \<Rightarrow> bool \<Rightarrow> string" where
  "normalizeString path allowAboveRoot =
     join ''/'' (foldl (normalize_step allowAboveRoot) [] (split_on (CHR ''/'') path))"

definition path_normalize :: "string \<Rightarrow> string" where
  "path_normalize path =
     (case path of
        [] \<Rightarrow> ''.''
      | c # _ \<Rightarrow>
          (let isAbsolute = (c = CHR ''/'');
               trailingSeparator = (last path = CHR ''/'');
               normal = normalizeString path (\<not> isAbsolute)
           in if normal = [] then
                (if isAbsolute then ''/'' else if trailingSeparator then ''./'' else ''.'')
              else (if isAbsolute then ''/'' else [])
                   @ normal @ (if trailingSeparator then ''/'' else [])))"

definition path_join :: "string \<Rightarrow> string \<Rightarrow> string" where
  "path_join a b =
     (let joined = (if a = [] then b else if b = [] then a else a @ ''/'' @ b)
      in if joined = [] then ''.'' else path_normalize joined)"

section \<open>\<^verbatim>\<open>cli.js\<close>\<close>

definition defaultCommitTypes :: "commit_type list" where
  "defaultCommitTypes =
     [\<lparr>name = Some ''feat'', description = Some ''A new feature'', checked = Some True\<rparr>,
      \<lparr>name = Some ''fix'', description = Some ''A bug fix'', checked = Some True\<rparr>,
      \<lparr>name = Some ''docs'', description = Some ''Documentation only changes'',
       checked = Some False\<rparr>,
      \<lparr>name = Some ''style'',
       description = Some ''Changes that do not affect the meaning of the code'',
       checked = Some False\<rparr>,
      \<lparr>name = Some ''refactor'',
       description = Some ''A code change that neither fixes a bug nor adds a feature'',
       checked = Some False\<rparr>,
      \<lparr>name = Some ''perf'', description = Some ''A code change that improves performance'',
       checked = Some False\<rparr>,
      \<lparr>name = Some ''test'',
       description = Some ''Adding missing tests or correcting existing tests'',
       checked = Some False\<rparr>,
      \<lparr>name = Some ''chore'',
       description = Some ''Changes to the build process or auxiliary tools'',
       checked = Some True\<rparr>]"

definition getGlobalConfigPath :: "world \<Rightarrow> string" where
  "getGlobalConfigPath w = path_join (os_homedir w) ''.mo-commit-config.json''"


subsection \<open>\<^verbatim>\<open>setup\<close>\<close>

text \<open>
  The four questions of \<^verbatim>\<open>setup\<close>. A list question returns one of its choices; an
  input question with \<^verbatim>\<open>validate\<close> returns only an input that validates; the
  checkbox returns the values of the ticked choices, in the order of the choices; the
  last question passes its input through \<^verbatim>\<open>filter\<close>.
\<close>

record answers =
  aiProvider :: string
  apiToken :: string
  commitTypes :: "commit_type list"
  customCommitTypes :: "commit_type list option"

definition ask :: "string \<Rightarrow> 'a option \<Rightarrow> 'a io" where
  "ask message answer =
     ([Ask message], case answer of None \<Rightarrow> Pending | Some a \<Rightarrow> Resolved a)"

definition validate_apiToken :: "string \<Rightarrow> bool" where
  "validate_apiToken input = (length input > 0)"

definition validate_commitTypes :: "commit_type list \<Rightarrow> bool" where
  "validate_commitTypes answer = (\<not> length answer < 1)"

definition filter_customCommitTypes :: "string \<Rightarrow> commit_type list" where
  "filter_customCommitTypes input =
     filter (\<lambda>type. truthy (name type) \<and> truthy (description type))
       (map (\<lambda>type.
               let parts = map trim (split_on (CHR '':'') type)
               in \<lparr>name = nth_opt parts 0, description = nth_opt parts 1, checked = None\<rparr>)
            (split_on (CHR '','') input))"

definition prompt_questions :: "world \<Rightarrow> answers io" where
  "prompt_questions w =
     (let u = user_setup w in
      then_io (ask ''Which AI provider do you want to use?''
                 (nth_opt [''Anthropic''] (choose_provider u))) (\<lambda>provider.
      then_io (ask ''Enter your API token:''
                 (if validate_apiToken (enter_token u) then Some (enter_token u) else None)) (\<lambda>token.
      then_io (let ticked = map fst (filter snd (zip defaultCommitTypes (tick_types u)))
               in ask ''Select the commit types you want to use:''
                    (if validate_commitTypes ticked then Some ticked else None)) (\<lambda>types.
      then_io (ask ''Enter any additional custom commit types (comma-separated, format: type:description):''
                 (Some (filter_customCommitTypes (enter_custom u)))) (\<lambda>custom.
      ([], Resolved \<lparr>aiProvider = provider, apiToken = token, commitTypes = types,
                      customCommitTypes = Some custom\<rparr>))))))"

text \<open>
  What \<^verbatim>\<open>JSON.stringify\<close> sees of the answers: the properties in the order they
  were set, without those that are absent or \<^verbatim>\<open>undefined\<close>.
\<close>

definition own_prop :: "string \<Rightarrow> json option \<Rightarrow> (string \<times> json) list" where
  "own_prop k v = (case v of None \<Rightarrow> [] | Some j \<Rightarrow> [(k, j)])"

definition commit_type_json :: "commit_type \<Rightarrow> json" where
  "commit_type_json t =
     JObj (own_prop ''name'' (map_option JStr (name t))
           @ own_prop ''description'' (map_option JStr (description t))
           @ own_prop ''checked'' (map_option JBool (checked t)))"

definition answers_json :: "answers \<Rightarrow> json" where
  "answers_json a =
     JObj ([(''aiProvider'', JStr (aiProvider a)),
            (''apiToken'', JStr (apiToken a)),
            (''commitTypes'', JArr (map commit_type_json (commitTypes a)))]
           @ own_prop ''customCommitTypes''
               (map_option (\<lambda>cs. JArr (map commit_type_json cs)) (customCommitTypes a)))"

definition setup_cmd :: "world \<Rightarrow> world io" where
  "setup_cmd w =
     then_io (console_log ''Running setup...'') (\<lambda>_.
     then_io (prompt_questions w) (\<lambda>answers.
     case customCommitTypes answers of
       None \<Rightarrow> ([], Rejected TypeError)
     | Some custom \<Rightarrow>
         (let answers = answers\<lparr>commitTypes := commitTypes answers @ custom\<rparr>;
              answers = answers\<lparr>customCommitTypes := None\<rparr>;
              config = JSON_stringify (answers_json answers);
              configPath = getGlobalConfigPath w
          in then_io (fs_writeFile w configPath config) (\<lambda>w'.
             then_io (console_log (''Configuration saved in '' @ configPath)) (\<lambda>_.
             ([], Resolved w'))))))"

subsection \<open>\<^verbatim>\<open>getStagedFilesAndDiff\<close>, \<^verbatim>\<open>getFilesContent\<close>, \<^verbatim>\<open>makeCommit\<close>\<close>

definition getStagedFilesAndDiff :: "world \<Rightarrow> (string list \<times> string) io" where
  "getStagedFilesAndDiff w =
     then_io (exec w ''git diff --cached --name-only'') (\<lambda>r.
       case error r of
         Some message \<Rightarrow> ([], Rejected (RejectedWith (''Error getting staged files: '' @ message)))
       | None \<Rightarrow>
           if stderr r \<noteq> [] then
             ([], Rejected (RejectedWith (''Error getting staged files: '' @ stderr r)))
           else
             (let stagedFiles = split_on (CHR 0x0A) (trim (stdout r))
              in then_io (exec w ''git diff --cached'') (\<lambda>d.
                   case error d of
                     Some message \<Rightarrow> ([], Rejected (RejectedWith (''Error getting diff: '' @ message)))
                   | None \<Rightarrow>
                       if stderr d \<noteq> [] then
                         ([], Rejected (RejectedWith (''Error getting diff: '' @ stderr d)))
                       else ([], Resolved (stagedFiles, stdout d)))))"

fun getFilesContent_loop :: "world \<Rightarrow> string \<Rightarrow> string list \<Rightarrow> string io" where
  "getFilesContent_loop w content [] = ([], Resolved content)"
| "getFilesContent_loop w content (file # rest) =
     (case fs_readFile w file of
        (es, Resolved text) \<Rightarrow>
          (case getFilesContent_loop w (content @ ''File: '' @ file @ NL @ text @ NL @ NL) rest of
             (es', r) \<Rightarrow> (es @ es', r))
      | (es, Rejected e) \<Rightarrow> (es, Rejected e)
      | (es, Pending) \<Rightarrow> (es, Pending))"

definition getFilesContent :: "world \<Rightarrow> string list \<Rightarrow> string io" where
  "getFilesContent w stagedFiles = getFilesContent_loop w [] stagedFiles"

definition makeCommit :: "world \<Rightarrow> string \<Rightarrow> bool option \<Rightarrow> string io" where
  \<open>makeCommit w message sign =
     (let signFlag = (if (case sign of None \<Rightarrow> False | Some b \<Rightarrow> b) then ''-S '' else [])
      in then_io (exec w (''git commit '' @ signFlag @ ''-m "'' @ message @ ''"'')) (\<lambda>r.
           case error r of
             Some msg \<Rightarrow> ([], Rejected (RejectedWith (''Error making commit: '' @ msg)))
           | None \<Rightarrow>
               then_io (if stderr r \<noteq> []
                        then console_warn (''Warning while making commit: '' @ stderr r)
                        else ([], Resolved ())) (\<lambda>_.
               ([], Resolved (stdout r)))))\<close>

subsection \<open>\<^verbatim>\<open>generateCommitMessage\<close>\<close>

definition render_type :: "(string \<Rightarrow> string) \<Rightarrow> json \<Rightarrow> string option" where
  "render_type num type =
     (case get_prop type ''name'' of
        Inl _ \<Rightarrow> None
      | Inr n \<Rightarrow>
          (case template_value num n of
             None \<Rightarrow> None
           | Some ns \<Rightarrow>
               (case get_prop type ''description'' of
                  Inl _ \<Rightarrow> None
                | Inr d \<Rightarrow>
                    (case template_value num d of
                       None \<Rightarrow> None
                     | Some ds \<Rightarrow> Some (''- '' @ ns @ '': '' @ ds)))))"

definition render_commitTypes :: "(string \<Rightarrow> string) \<Rightarrow> json option \<Rightarrow> js_error + string" where
  "render_commitTypes num types =
     (case types of
        Some (JArr ts) \<Rightarrow>
          (case those (map (render_type num) ts) of
             None \<Rightarrow> Inl TypeError
           | Some ls \<Rightarrow> Inr (join (NL @ ''                    '') ls))
      | _ \<Rightarrow> Inl TypeError)"

definition prompt_content :: "string \<Rightarrow> string \<Rightarrow> string \<Rightarrow> string" where
  "prompt_content types filesContent diff =
     ''\<newline>''
     @ ''                Analyze the following Git diff and file contents to generate a concise, informative commit message following these best practices:\<newline>''
     @ ''\<newline>''
     @ ''                1. Start with a commit type prefix followed by a colon and space. Use one of these types:\<newline>''
     @ ''                    ''
     @ types
     @ ''\<newline>''
     @ ''\<newline>''
     @ ''                2. After the type, use the imperative mood (e.g., 'add feature' not 'added feature')\<newline>''
     @ ''                3. Keep the first line (subject) under 50 characters, including the type\<newline>''
     @ ''                4. The whole commit message and title must be on lower case always\<newline>''
     @ ''                5. Do not end the subject line with a period\<newline>''
     @ ''                6. Separate subject from body with a blank line\<newline>''
     @ ''                7. Wrap the body at 72 characters\<newline>''
     @ ''                8. Use the body to explain what and why, not how\<newline>''
     @ ''\<newline>''
     @ ''                If multiple files or significant changes are involved, use a multi-line commit message with a brief subject line followed by a more detailed explanation in the body.\<newline>''
     @ ''\<newline>''
     @ ''                <filescontent>\<newline>''
     @ ''                ''
     @ filesContent
     @ ''\<newline>''
     @ ''                </filescontent>\<newline>''
     @ ''\<newline>''
     @ ''\<newline>''
     @ ''                <diff>\<newline>''
     @ ''                ''
     @ diff
     @ ''\<newline>''
     @ ''                </diff>\<newline>''
     @ ''\<newline>''
     @ ''                Generate the commit message now using the provided information and return only the commit message without explanations.:\<newline>''
     @ ''                ''"

definition generateCommitMessage ::
  "world \<Rightarrow> json option \<Rightarrow> string \<Rightarrow> string \<Rightarrow> json option \<Rightarrow> string io" where
  "generateCommitMessage w token filesContent diff types =
     (case Anthropic_new w token of
        Some msg \<Rightarrow> ([], Rejected (ApiError msg))
      | None \<Rightarrow>
          (case render_commitTypes (Number_toString w) types of
             Inl e \<Rightarrow> ([], Rejected e)
           | Inr rendered \<Rightarrow>
               (let content = prompt_content rendered filesContent diff
                in ([ApiCall token content],
                    case messages_create w token content of
                      Inl msg \<Rightarrow> Rejected (ApiError msg)
                    | Inr text \<Rightarrow> Resolved text))))"

subsection \<open>\<^verbatim>\<open>defaultCommand\<close> and the dispatch\<close>

definition lift :: "js_error + 'a \<Rightarrow> 'a io" where
  "lift r = ([], case r of Inl e \<Rightarrow> Rejected e | Inr x \<Rightarrow> Resolved x)"

definition JSON_parse_io :: "string \<Rightarrow> json io" where
  "JSON_parse_io text =
     ([], case JSON_parse text of None \<Rightarrow> Rejected SyntaxError | Some v \<Rightarrow> Resolved v)"

definition defaultCommand :: "world \<Rightarrow> unit io" where
  \<open>defaultCommand w =
     then_io (console_log ''Executing commit...'') (\<lambda>_.
     let configPath = getGlobalConfigPath w in
     case fs_access w configPath of
       (es, Rejected _) \<Rightarrow>
         (es @ [Log ''Configuration not found. Please run "commit --setup" first.''], Resolved ())
     | (es, Pending) \<Rightarrow> (es, Pending)
     | (es, Resolved _) \<Rightarrow>
     then_io (es, Resolved ()) (\<lambda>_.
     then_io (fs_readFile w configPath) (\<lambda>text.
     then_io (JSON_parse_io text) (\<lambda>config.
     then_io (lift (get_prop config ''aiProvider'')) (\<lambda>provider.
     if provider \<noteq> Some (JStr ''Anthropic'') then
       console_log ''This command only works with Anthropic for now.''
     else
     then_io (getStagedFilesAndDiff w) (\<lambda>(stagedFiles, diff).
     if length stagedFiles = 0 \<or> nth_opt stagedFiles 0 = Some [] then
       console_log ''No files in staging. Add files before committing.''
     else
     then_io (getFilesContent w stagedFiles) (\<lambda>filesContent.
     then_io (lift (get_prop config ''apiToken'')) (\<lambda>token.
     then_io (lift (get_prop config ''commitTypes'')) (\<lambda>types.
     then_io (generateCommitMessage w token filesContent diff types) (\<lambda>commitMessage.
     then_io (console_log ''\<newline>=== Generated Commit Message ==='') (\<lambda>_.
     then_io (console_log ''----------------------------------'') (\<lambda>_.
     let parts = split_on (CHR 0x0A) commitMessage;
         subject = nth_opt parts 0;
         body = drop 1 parts
     in
     then_io (console_log (case subject of None \<Rightarrow> ''undefined'' | Some s \<Rightarrow> s)) (\<lambda>_.
     then_io (if length body > 0 then
                then_io (console_log ''----------------------------------'') (\<lambda>_.
                console_log (join NL body))
              else ([], Resolved ())) (\<lambda>_.
     then_io (console_log ''----------------------------------\<newline>'') (\<lambda>_.
     then_io (ask ''Do you want to use this message?'' (Some (user_confirm w))) (\<lambda>confirmCommit.
     if confirmCommit then
       then_io (makeCommit w commitMessage (argv_S w)) (\<lambda>_.
       console_log ''Commit successfully made.'')
     else
       console_log ''Commit cancelled.''))))))))))))))))\<close>

text \<open>
  The last lines of the file start one of the two functions and drop its promise: a
  rejection is handled nowhere, and ends the process as an unhandled rejection.
\<close>

datatype process_end = Exited | UnhandledRejection js_error | Waiting

definition cli :: "world \<Rightarrow> event list \<times> process_end \<times> world" where
  "cli w =
     (if argv_setup w = Some True then
        (case setup_cmd w of
           (es, Resolved w') \<Rightarrow> (es, Exited, w')
         | (es, Rejected e) \<Rightarrow> (es, UnhandledRejection e, w)
         | (es, Pending) \<Rightarrow> (es, Waiting, w))
      else
        (case defaultCommand w of
           (es, Resolved _) \<Rightarrow> (es, Exited, w)
         | (es, Rejected e) \<Rightarrow> (es, UnhandledRejection e, w)
         | (es, Pending) \<Rightarrow> (es, Waiting, w)))"


section \<open>Views of a run\<close>

text \<open>
  The definitions of this section add nothing to the program: they name parts of
  \<open>defaultCommand\<close> and properties of traces, for the statements and proofs below.
  \<open>review\<close> is the end of \<open>defaultCommand\<close>, from the display of the generated
  message on; \<open>after_staged\<close> is what follows the query of the staging area;
  \<open>display\<close> lists what the review prints; \<open>is_commit\<close> recognises the command line of
  a commit and \<open>commit_command\<close> is the one \<open>makeCommit\<close> builds. An event is quiet
  when it is neither a question, nor a call of the generation service, nor a command
  other than the two queries of the staging area.
\<close>

definition review :: "world \<Rightarrow> string \<Rightarrow> unit io" where
  "review w commitMessage =
     then_io (console_log ''\<newline>=== Generated Commit Message ==='') (\<lambda>_.
     then_io (console_log ''----------------------------------'') (\<lambda>_.
     let parts = split_on (CHR 0x0A) commitMessage;
         subject = nth_opt parts 0;
         body = drop 1 parts
     in
     then_io (console_log (case subject of None \<Rightarrow> ''undefined'' | Some s \<Rightarrow> s)) (\<lambda>_.
     then_io (if length body > 0 then
                then_io (console_log ''----------------------------------'') (\<lambda>_.
                console_log (join NL body))
              else ([], Resolved ())) (\<lambda>_.
     then_io (console_log ''----------------------------------\<newline>'') (\<lambda>_.
     then_io (ask ''Do you want to use this message?'' (Some (user_confirm w))) (\<lambda>confirmCommit.
     if confirmCommit then
       then_io (makeCommit w commitMessage (argv_S w)) (\<lambda>_.
       console_log ''Commit successfully made.'')
     else
       console_log ''Commit cancelled.''))))))"

definition after_staged :: "world \<Rightarrow> json \<Rightarrow> string list \<times> string \<Rightarrow> unit io" where
  "after_staged w config =
     (\<lambda>(stagedFiles, diff).
        if length stagedFiles = 0 \<or> nth_opt stagedFiles 0 = Some [] then
          console_log ''No files in staging. Add files before committing.''
        else
          then_io (getFilesContent w stagedFiles) (\<lambda>filesContent.
          then_io (lift (get_prop config ''apiToken'')) (\<lambda>token.
          then_io (lift (get_prop config ''commitTypes'')) (\<lambda>types.
          then_io (generateCommitMessage w token filesContent diff types) (review w)))))"

definition header :: "world \<Rightarrow> event list" where
  "header w =
     [Log ''Executing commit...'', Access (getGlobalConfigPath w), ReadFile (getGlobalConfigPath w)]"

definition display :: "string \<Rightarrow> event list" where
  "display commitMessage =
     [Log ''\<newline>=== Generated Commit Message ==='', Log ''----------------------------------'',
      Log (case nth_opt (split_on (CHR 0x0A) commitMessage) 0 of None \<Rightarrow> ''undefined'' | Some s \<Rightarrow> s)]
     @ (if length (drop 1 (split_on (CHR 0x0A) commitMessage)) > 0
        then [Log ''----------------------------------'',
              Log (join NL (drop 1 (split_on (CHR 0x0A) commitMessage)))]
        else [])
     @ [Log ''----------------------------------\<newline>'']"

definition is_commit :: "string \<Rightarrow> bool" where
  "is_commit command = (take 11 command = ''git commit '')"

definition commit_command :: "world \<Rightarrow> string \<Rightarrow> string" where
  \<open>commit_command w message =
     ''git commit '' @ (if argv_S w = Some True then ''-S '' else []) @ ''-m "'' @ message @ ''"''\<close>

definition quiet_event :: "event \<Rightarrow> bool" where
  "quiet_event e =
     (case e of
        Log _ \<Rightarrow> True
      | Access _ \<Rightarrow> True
      | ReadFile _ \<Rightarrow> True
      | Exec c \<Rightarrow> c = ''git diff --cached --name-only'' \<or> c = ''git diff --cached''
      | _ \<Rightarrow> False)"

definition quiet :: "'a io \<Rightarrow> bool" where
  "quiet m = list_all quiet_event (fst m)"

definition shaped :: "world \<Rightarrow> unit io \<Rightarrow> bool" where
  "shaped w m =
     (quiet m
      \<or> (\<exists>pre t c e. m = (pre @ [ApiCall t c], Rejected (ApiError e))
            \<and> list_all quiet_event pre \<and> messages_create w t c = Inl e)
      \<or> (\<exists>pre t c msg. m = (pre @ ApiCall t c # fst (review w msg), snd (review w msg))
            \<and> list_all quiet_event pre \<and> messages_create w t c = Inr msg))"

text \<open>
  The reading of claim C3 in the specification's words: the pair is trimmed, then split
  on its first colon. \<open>pair_name\<close> and \<open>pair_description\<close> are the fields the
  program keeps.
\<close>

definition pair_name :: "string \<Rightarrow> string" where
  "pair_name pair = trim (takeWhile (\<lambda>c. c \<noteq> CHR '':'') pair)"

definition pair_description :: "string \<Rightarrow> string" where
  "pair_description pair =
     trim (takeWhile (\<lambda>c. c \<noteq> CHR '':'') (drop 1 (dropWhile (\<lambda>c. c \<noteq> CHR '':'') pair)))"

definition first_colon_customCommitTypes :: "string \<Rightarrow> commit_type list" where
  "first_colon_customCommitTypes input =
     List.map_filter
       (\<lambda>pair.
          let t = trim pair;
              n = takeWhile (\<lambda>c. c \<noteq> CHR '':'') t;
              d = drop 1 (dropWhile (\<lambda>c. c \<noteq> CHR '':'') t)
          in if n \<noteq> [] \<and> d \<noteq> []
             then Some \<lparr>name = Some n, description = Some d, checked = None\<rparr>
             else None)
       (split_on (CHR '','') input)"

subsection \<open>Example worlds\<close>

text \<open>
  A repository with one staged file, a configuration written by \<^verbatim>\<open>setup\<close>, a
  generation service that proposes a message, and a user who approves it. The commit
  succeeds and a hook prints a line of diagnostic output. The other worlds differ from
  it in one respect each.
\<close>

definition example_world :: world where
  \<open>example_world =
     \<lparr>argv_S = None, argv_setup = None, os_homedir = ''/home/u'',
      fs_files = (\<lambda>p. if p = ''/home/u/.mo-commit-config.json''
                     then Some ''{"aiProvider": "Anthropic", "apiToken": "k", "commitTypes": [{"name": "feat", "description": "A new feature"}]}''
                     else if p = ''a.js'' then Some ''console.log(1)''
                     else if p = ''b.css'' then Some ''p { }''
                     else None),
      fs_unreadable = (\<lambda>p. False),
      fs_writable = (\<lambda>p. True),
      child_exec = (\<lambda>c. if c = ''git diff --cached --name-only''
                        then \<lparr>error = None, stdout = ''a.js\<newline>'', stderr = []\<rparr>
                        else if c = ''git diff --cached''
                        then \<lparr>error = None, stdout = ''+console.log(1)'', stderr = []\<rparr>
                        else \<lparr>error = None, stdout = [], stderr = ''hook output''\<rparr>),
      Number_toString = (\<lambda>n. n),
      Anthropic_new = (\<lambda>k. None),
      messages_create = (\<lambda>k p. Inr ''feat: add logging\<newline>\<newline>adds a debug log line''),
      user_setup = \<lparr>choose_provider = 0, enter_token = ''k'', tick_types = [True, True],
                     enter_custom = ''build:ci tweaks''\<rparr>,
      user_confirm = True\<rparr>\<close>

definition nothing_staged_world :: world where
  "nothing_staged_world =
     example_world\<lparr>child_exec := (\<lambda>c. \<lparr>error = None, stdout = [], stderr = []\<rparr>)\<rparr>"

definition noisy_query_world :: world where
  "noisy_query_world =
     example_world\<lparr>child_exec := (\<lambda>c. \<lparr>error = None, stdout = ''a.js\<newline>'',
        stderr = ''warning: in the working copy of a.js, LF will be replaced by CRLF''\<rparr>)\<rparr>"

definition config_world :: "string \<Rightarrow> world" where
  "config_world text =
     example_world\<lparr>fs_files := (\<lambda>p. if p = ''/home/u/.mo-commit-config.json''
                                     then Some text else None)\<rparr>"

definition truncated_config_world :: world where
  \<open>truncated_config_world = config_world ''{"aiProvider": "Anthropic",''\<close>

definition no_config_world :: world where
  "no_config_world = example_world\<lparr>fs_files := (\<lambda>p. None)\<rparr>"

definition unreadable_config_world :: world where
  "unreadable_config_world = no_config_world\<lparr>fs_unreadable := (\<lambda>p. True)\<rparr>"

definition quoting_world :: world where
  \<open>quoting_world =
     example_world\<lparr>messages_create := (\<lambda>k p. Inr ''fix: handle "quoted" names'')\<rparr>\<close>

definition declining_world :: world where
  "declining_world =
     example_world\<lparr>messages_create := (\<lambda>k p. Inr ''feat: add x\<newline>\<newline>body line''),
                   user_confirm := False\<rparr>"

text \<open>
  For the round trip of the configuration: \<open>no_num\<close> holds of the values without a
  number, \<open>all_ws\<close> of the strings of JSON white space, and \<open>starts_value\<close> of the
  characters such a value can start with.
\<close>

fun no_num :: "json \<Rightarrow> bool" where
  "no_num (JNum n) = False"
| "no_num (JArr vs) = (\<forall>v \<in> set vs. no_num v)"
| "no_num (JObj ms) = (\<forall>m \<in> set ms. no_num (snd m))"
| "no_num _ = True"

definition all_ws :: "string \<Rightarrow> bool" where
  "all_ws ws = (\<forall>c \<in> set ws. json_ws c)"

definition starts_value :: "char \<Rightarrow> bool" where
  "starts_value c = (c \<in> {CHR ''n'', CHR ''t'', CHR ''f'', CHR 0x22, CHR ''['', CHR ''{''})"

definition example_config :: answers where
  \<open>example_config =
     \<lparr>aiProvider = ''Anthropic'', apiToken = ''k"1'',
      commitTypes =
        [\<lparr>name = Some ''feat'', description = Some ''A new feature'', checked = Some True\<rparr>,
         \<lparr>name = Some ''build'', description = Some [CHR ''c'', CHR ''i'', CHR 0x09,
            CHR ''t'', CHR ''w'', CHR ''e'', CHR ''a'', CHR ''k'', CHR ''s''], checked = None\<rparr>],
      customCommitTypes = None\<rparr>\<close>

section \<open>Lemmas\<close>

lemma home_path:
  assumes "os_homedir w = ''/home/u''"
  shows "getGlobalConfigPath w = ''/home/u/.mo-commit-config.json''"
proof -
  have "path_join ''/home/u'' ''.mo-commit-config.json'' = ''/home/u/.mo-commit-config.json''"
    by code_simp
  then show ?thesis using assms by (simp add: getGlobalConfigPath_def)
qed

lemma then_io_Resolved: "then_io (es, Resolved x) f = (es @ fst (f x), snd (f x))"
  by (simp add: then_io_def split: prod.splits)

lemma then_io_Rejected [simp]: "then_io (es, Rejected e) f = (es, Rejected e)"
  by (simp add: then_io_def)

lemma then_io_Pending [simp]: "then_io (es, Pending) f = (es, Pending)"
  by (simp add: then_io_def)

lemma getFilesContent_loop_Cons:
  "getFilesContent_loop w content (file # rest) =
     then_io (fs_readFile w file)
       (\<lambda>text. getFilesContent_loop w (content @ ''File: '' @ file @ NL @ text @ NL @ NL) rest)"
  by (simp add: then_io_def split: prod.splits completion.splits)

lemma quiet_then: "quiet m \<Longrightarrow> (\<And>x. quiet (f x)) \<Longrightarrow> quiet (then_io m f)"
  by (cases m; cases "snd m") (auto simp: quiet_def then_io_Resolved)

lemma quiet_basic [simp]:
  "quiet (console_log s)" "quiet (fs_access w p)" "quiet (fs_readFile w p)"
  "quiet (lift r)" "quiet (JSON_parse_io text)" "quiet ([], c)"
  "quiet (exec w ''git diff --cached --name-only'')" "quiet (exec w ''git diff --cached'')"
  by (simp_all add: quiet_def quiet_event_def console_log_def fs_access_def fs_readFile_def
      lift_def JSON_parse_io_def exec_def)

lemma getFilesContent_loop_quiet: "quiet (getFilesContent_loop w acc fs)"
proof (induction fs arbitrary: acc)
  case Nil
  show ?case by simp
next
  case (Cons f rest)
  show ?case
    unfolding getFilesContent_loop_Cons
    by (rule quiet_then) (simp_all add: Cons.IH)
qed

lemma getStaged_quiet: "quiet (getStagedFilesAndDiff w)"
  unfolding getStagedFilesAndDiff_def Let_def
  by (intro quiet_then) (auto split: option.splits intro!: quiet_then)

lemma shaped_quiet: "quiet m \<Longrightarrow> shaped w m"
  by (simp add: shaped_def)

lemma shaped_then:
  assumes "quiet m" and "\<And>x. shaped w (f x)"
  shows "shaped w (then_io m f)"
proof (cases m)
  case (Pair es r)
  show ?thesis
  proof (cases r)
    case (Resolved x)
    have q: "list_all quiet_event es" using assms(1) Pair by (simp add: quiet_def)
    have eq: "then_io m f = (es @ fst (f x), snd (f x))"
      using Pair Resolved by (simp add: then_io_Resolved)
    from assms(2) [of x] consider
        (a) "quiet (f x)"
      | (b) pre t c e where "f x = (pre @ [ApiCall t c], Rejected (ApiError e))"
          "list_all quiet_event pre" "messages_create w t c = Inl e"
      | (c) pre t c msg where "f x = (pre @ ApiCall t c # fst (review w msg), snd (review w msg))"
          "list_all quiet_event pre" "messages_create w t c = Inr msg"
      unfolding shaped_def by blast
    then show ?thesis
    proof cases
      case a
      then show ?thesis using q eq by (simp add: shaped_def quiet_def)
    next
      case b
      then have "then_io m f = ((es @ pre) @ [ApiCall t c], Rejected (ApiError e))"
        using eq by simp
      moreover have "list_all quiet_event (es @ pre)" using q b by simp
      ultimately show ?thesis using b(3) unfolding shaped_def by blast
    next
      case c
      then have "then_io m f = ((es @ pre) @ ApiCall t c # fst (review w msg), snd (review w msg))"
        using eq by simp
      moreover have "list_all quiet_event (es @ pre)" using q c by simp
      ultimately show ?thesis using c(3) unfolding shaped_def by blast
    qed
  next
    case (Rejected e)
    then show ?thesis using assms(1) Pair by (simp add: shaped_def quiet_def)
  next
    case Pending
    then show ?thesis using assms(1) Pair by (simp add: shaped_def quiet_def)
  qed
qed

lemma shaped_generate:
  "shaped w (then_io (generateCommitMessage w t fc d ts) (review w))"
proof (cases "Anthropic_new w t")
  case (Some msg)
  then show ?thesis
    by (simp add: generateCommitMessage_def shaped_def quiet_def)
next
  case None
  show ?thesis
  proof (cases "render_commitTypes (Number_toString w) ts")
    case (Inl e)
    then show ?thesis using None
      by (simp add: generateCommitMessage_def shaped_def quiet_def)
  next
    case (Inr rendered)
    let ?c = "prompt_content rendered fc d"
    show ?thesis
    proof (cases "messages_create w t ?c")
      case (Inl e)
      then have "then_io (generateCommitMessage w t fc d ts) (review w)
                 = ([] @ [ApiCall t ?c], Rejected (ApiError e))"
        using None Inr by (simp add: generateCommitMessage_def then_io_Resolved)
      moreover have "list_all quiet_event []" by simp
      ultimately show ?thesis using Inl unfolding shaped_def by blast
    next
      case (Inr msg)
      then have "then_io (generateCommitMessage w t fc d ts) (review w)
                 = ([] @ ApiCall t ?c # fst (review w msg), snd (review w msg))"
        using None \<open>render_commitTypes (Number_toString w) ts = Inr rendered\<close>
        by (simp add: generateCommitMessage_def then_io_Resolved)
      moreover have "list_all quiet_event []" by simp
      ultimately show ?thesis using Inr unfolding shaped_def by blast
    qed
  qed
qed

lemma defaultCommand_fold:
  \<open>defaultCommand w =
     then_io (console_log ''Executing commit...'') (\<lambda>_.
     let configPath = getGlobalConfigPath w in
     case fs_access w configPath of
       (es, Rejected _) \<Rightarrow>
         (es @ [Log ''Configuration not found. Please run "commit --setup" first.''], Resolved ())
     | (es, Pending) \<Rightarrow> (es, Pending)
     | (es, Resolved _) \<Rightarrow>
     then_io (es, Resolved ()) (\<lambda>_.
     then_io (fs_readFile w configPath) (\<lambda>text.
     then_io (JSON_parse_io text) (\<lambda>config.
     then_io (lift (get_prop config ''aiProvider'')) (\<lambda>provider.
     if provider \<noteq> Some (JStr ''Anthropic'') then
       console_log ''This command only works with Anthropic for now.''
     else
     then_io (getStagedFilesAndDiff w) (\<lambda>(stagedFiles, diff).
     if length stagedFiles = 0 \<or> nth_opt stagedFiles 0 = Some [] then
       console_log ''No files in staging. Add files before committing.''
     else
     then_io (getFilesContent w stagedFiles) (\<lambda>filesContent.
     then_io (lift (get_prop config ''apiToken'')) (\<lambda>token.
     then_io (lift (get_prop config ''commitTypes'')) (\<lambda>types.
     then_io (generateCommitMessage w token filesContent diff types) (review w))))))))))\<close>
  unfolding defaultCommand_def review_def ..

lemma quiet_Access [simp]: "quiet ([Access p], r)"
  by (simp add: quiet_def quiet_event_def)

lemma fs_access_cases:
  "fs_access w p = ([Access p], Rejected (FsError p)) \<or> fs_access w p = ([Access p], Resolved ())"
  by (simp add: fs_access_def)

lemma defaultCommand_shaped: "shaped w (defaultCommand w)"
  unfolding defaultCommand_fold Let_def
  apply (rule shaped_then, simp)
  apply (insert fs_access_cases [of w "getGlobalConfigPath w"])
  apply (erule disjE)
   apply (simp, rule shaped_quiet, simp add: quiet_def quiet_event_def)
  apply simp
  apply (rule shaped_then, simp)
  apply (rule shaped_then, simp)
  apply (rule shaped_then, simp)
  apply (rule shaped_then, simp)
  apply (simp only: split: if_splits)
  apply (intro conjI impI)
   apply (rule shaped_quiet, simp)
  apply (rule shaped_then, rule getStaged_quiet)
  apply (simp only: split: prod.splits if_splits)
  apply (intro conjI impI allI)
   apply (rule shaped_quiet, simp)
  apply (rule shaped_then, simp add: getFilesContent_def getFilesContent_loop_quiet)
  apply (rule shaped_then, simp)
  apply (rule shaped_then, simp)
  apply (rule shaped_generate)
  done

lemma makeCommit_eq:
  "makeCommit w message (argv_S w) =
     (case error (child_exec w (commit_command w message)) of
        Some msg \<Rightarrow> ([Exec (commit_command w message)],
                     Rejected (RejectedWith (''Error making commit: '' @ msg)))
      | None \<Rightarrow>
          (Exec (commit_command w message)
             # (if stderr (child_exec w (commit_command w message)) \<noteq> []
                then [Warn (''Warning while making commit: ''
                            @ stderr (child_exec w (commit_command w message)))]
                else []),
           Resolved (stdout (child_exec w (commit_command w message)))))"
proof -
  have flag: "(if (case argv_S w of None \<Rightarrow> False | Some b \<Rightarrow> b) then ''-S '' else [])
              = (if argv_S w = Some True then ''-S '' else [])"
    by (cases "argv_S w") auto
  show ?thesis
    unfolding makeCommit_def Let_def flag commit_command_def [symmetric]
    by (simp add: exec_def then_io_Resolved console_warn_def split: option.splits)
qed

lemma review_eq:
  "review w message =
     (display message @ Ask ''Do you want to use this message?''
        # (if user_confirm w
           then fst (makeCommit w message (argv_S w))
                @ (case snd (makeCommit w message (argv_S w)) of
                     Resolved _ \<Rightarrow> [Log ''Commit successfully made.''] | _ \<Rightarrow> [])
           else [Log ''Commit cancelled.'']),
      if user_confirm w
      then (case snd (makeCommit w message (argv_S w)) of
              Resolved _ \<Rightarrow> Resolved () | Rejected e \<Rightarrow> Rejected e | Pending \<Rightarrow> Pending)
      else Resolved ())"
  unfolding review_def display_def Let_def
  by (cases "makeCommit w message (argv_S w)"; cases "snd (makeCommit w message (argv_S w))")
     (simp_all add: console_log_def ask_def then_io_Resolved)

lemma split_after:
  assumes "before @ x # after = A @ B" and "x \<notin> set A"
  shows "\<exists>zs. before = A @ zs \<and> B = zs @ x # after"
proof -
  from assms(1) consider
      (l) us where "before = A @ us" "us @ x # after = B"
    | (r) us where "before @ us = A" "x # after = us @ B"
    by (auto simp: append_eq_append_conv2)
  then show ?thesis
  proof cases
    case l
    then show ?thesis by auto
  next
    case r
    show ?thesis
    proof (cases us)
      case Nil
      then show ?thesis using r by auto
    next
      case (Cons u us')
      then have "x \<in> set A" using r by auto
      then show ?thesis using assms(2) by simp
    qed
  qed
qed

lemma quiet_event_not_commit: "quiet_event (Exec c) \<Longrightarrow> \<not> is_commit c"
  by (auto simp: quiet_event_def is_commit_def)

lemma display_Logs: "e \<in> set (display m) \<Longrightarrow> \<exists>s. e = Log s"
  by (auto simp: display_def split: if_splits)

lemma review_declined:
  "\<not> user_confirm w \<Longrightarrow>
   review w m = (display m @ [Ask ''Do you want to use this message?'', Log ''Commit cancelled.''],
                 Resolved ())"
  by (simp add: review_eq)

lemma review_confirmed:
  assumes "user_confirm w"
  shows "\<exists>rest. fst (review w m)
           = display m @ Ask ''Do you want to use this message?''
               # Exec (commit_command w m) # rest
         \<and> (\<forall>c. Exec c \<notin> set rest)"
  using assms
  by (auto simp: review_eq makeCommit_eq split: option.splits completion.splits)

lemma setup_no_Exec: "Exec c \<notin> set (fst (setup_cmd w))"
  unfolding setup_cmd_def prompt_questions_def Let_def
  by (auto simp: then_io_def console_log_def ask_def fs_writeFile_def
      split: prod.splits completion.splits option.splits if_splits)

lemma setup_no_ApiCall: "ApiCall t c \<notin> set (fst (setup_cmd w))"
  unfolding setup_cmd_def prompt_questions_def Let_def
  by (auto simp: then_io_def console_log_def ask_def fs_writeFile_def
      split: prod.splits completion.splits option.splits if_splits)

lemma setup_no_confirm: "Ask ''Do you want to use this message?'' \<notin> set (fst (setup_cmd w))"
  unfolding setup_cmd_def prompt_questions_def Let_def
  by (auto simp: then_io_def console_log_def ask_def fs_writeFile_def
      split: prod.splits completion.splits option.splits if_splits)

lemma cli_trace:
  "fst (cli w) = (if argv_setup w = Some True then fst (setup_cmd w) else fst (defaultCommand w))"
  by (simp add: cli_def split: prod.splits completion.splits)

lemma cli_default:
  "argv_setup w \<noteq> Some True \<Longrightarrow>
   cli w = (fst (defaultCommand w),
            (case snd (defaultCommand w) of
               Resolved _ \<Rightarrow> Exited | Rejected e \<Rightarrow> UnhandledRejection e | Pending \<Rightarrow> Waiting),
            w)"
  by (simp add: cli_def split: prod.splits completion.splits)

lemma ending_of:
  assumes "cli w = (trace, ending, w')" and "argv_setup w \<noteq> Some True"
  shows "trace = fst (defaultCommand w)"
    and "ending = (case snd (defaultCommand w) of
                     Resolved _ \<Rightarrow> Exited | Rejected e \<Rightarrow> UnhandledRejection e | Pending \<Rightarrow> Waiting)"
  using assms by (auto simp: cli_default)

lemma review_no_ApiCall: "ApiCall t c \<notin> set (fst (review w m))"
  by (auto simp: review_eq makeCommit_eq display_def split: option.splits completion.splits)

lemma generated_run:
  assumes run: "cli w = (trace, ending, w')"
    and api: "ApiCall token content \<in> set trace"
    and response: "messages_create w token content = Inr message"
  shows "\<exists>pre. trace = pre @ ApiCall token content # fst (review w message)
           \<and> list_all quiet_event pre
           \<and> defaultCommand w = (trace, snd (review w message))
           \<and> argv_setup w \<noteq> Some True"
proof (cases "argv_setup w = Some True")
  case True
  then have "trace = fst (setup_cmd w)" using run cli_trace [of w] by simp
  then show ?thesis using api setup_no_ApiCall [of token content w] by simp
next
  case False
  then have tr: "trace = fst (defaultCommand w)" using run cli_trace [of w] by simp
  have nq: "\<not> quiet_event (ApiCall token content)" by (simp add: quiet_event_def)
  from defaultCommand_shaped [of w] consider
      (a) "quiet (defaultCommand w)"
    | (b) pre t c e where "defaultCommand w = (pre @ [ApiCall t c], Rejected (ApiError e))"
        "list_all quiet_event pre" "messages_create w t c = Inl e"
    | (c) pre t c msg where
        "defaultCommand w = (pre @ ApiCall t c # fst (review w msg), snd (review w msg))"
        "list_all quiet_event pre" "messages_create w t c = Inr msg"
    unfolding shaped_def by blast
  then show ?thesis
  proof cases
    case a
    then show ?thesis using api nq tr by (auto simp: quiet_def list_all_iff)
  next
    case b
    then have "ApiCall token content = ApiCall t c"
      using api nq tr by (auto simp: list_all_iff)
    then show ?thesis using b(3) response by simp
  next
    case c
    then have "ApiCall token content = ApiCall t c"
      using api nq tr review_no_ApiCall [of token content w msg] by (auto simp: list_all_iff)
    then have "t = token" "c = content" by simp_all
    then have "msg = message" using c(3) response by simp
    then show ?thesis using c tr False \<open>t = token\<close> \<open>c = content\<close> by auto
  qed
qed

lemma split_on_unfold:
  "split_on c s =
     takeWhile (\<lambda>x. x \<noteq> c) s
       # (case dropWhile (\<lambda>x. x \<noteq> c) s of [] \<Rightarrow> [] | _ # r \<Rightarrow> split_on c r)"
  by (induction s) (auto split: list.splits)

lemma split_on_not_Nil: "split_on c s \<noteq> []"
  by (subst split_on_unfold) simp

lemma strip_start_Nil: "strip_start toks [] = []"
proof -
  have "find (starts_with []) toks = None"
    by (induction toks) (auto simp: starts_with_def)
  then show ?thesis by (simp add: strip_start.simps)
qed

lemma trim_Nil: "trim [] = []"
  by (simp add: trim_def trimStart_def trimEnd_def strip_start_Nil)

lemma strip_start_fixed: "find (starts_with (strip_start toks s)) toks = None"
proof (induction toks s rule: strip_start.induct)
  case (1 toks s)
  show ?case
  proof (cases "find (starts_with s) toks")
    case None
    then show ?thesis by (simp add: strip_start.simps)
  next
    case (Some t)
    then show ?thesis using 1 by (simp add: strip_start.simps)
  qed
qed

lemma strip_start_drop: "\<exists>n. strip_start toks s = drop n s"
proof (induction toks s rule: strip_start.induct)
  case (1 toks s)
  show ?case
  proof (cases "find (starts_with s) toks")
    case None
    then have "strip_start toks s = drop 0 s" by (simp add: strip_start.simps)
    then show ?thesis by blast
  next
    case (Some t)
    then obtain n where "strip_start toks (drop (length t) s) = drop n (drop (length t) s)"
      using 1 by blast
    then have "strip_start toks s = drop (n + length t) s" using Some by (simp add: add.commute strip_start.simps)
    then show ?thesis by blast
  qed
qed

lemma trim_no_leading_newline: "trim s \<noteq> CHR 0x0A # r"
proof
  assume a: "trim s = CHR 0x0A # r"
  obtain n where "strip_start (map rev white_space) (rev (trimStart s)) = drop n (rev (trimStart s))"
    using strip_start_drop by blast
  then have "trim s = take (length (trimStart s) - n) (trimStart s)"
    by (simp add: trim_def trimEnd_def rev_drop)
  then obtain t where "trimStart s = CHR 0x0A # t"
    using a by (cases "trimStart s") (auto split: if_splits nat.splits simp: take_Cons')
  then have "starts_with (trimStart s) [CHR 0x0A]" by (simp add: starts_with_def)
  moreover have "[CHR 0x0A] \<in> set white_space" by (simp add: white_space_def)
  ultimately have "find (starts_with (trimStart s)) white_space \<noteq> None"
    by (auto simp: find_None_iff)
  then show False using strip_start_fixed [of white_space s] by (simp add: trimStart_def)
qed

lemma first_piece_empty: "nth_opt (split_on c s) 0 = Some [] \<longleftrightarrow> s = [] \<or> (\<exists>r. s = c # r)"
  by (subst split_on_unfold) (cases s; auto simp: nth_opt_def)

lemma getStaged_eq:
  "getStagedFilesAndDiff w =
     (let r = child_exec w ''git diff --cached --name-only'';
          d = child_exec w ''git diff --cached''
      in if error r \<noteq> None \<or> stderr r \<noteq> [] then
           ([Exec ''git diff --cached --name-only''],
            Rejected (RejectedWith (''Error getting staged files: ''
              @ (case error r of Some message \<Rightarrow> message | None \<Rightarrow> stderr r))))
         else if error d \<noteq> None \<or> stderr d \<noteq> [] then
           ([Exec ''git diff --cached --name-only'', Exec ''git diff --cached''],
            Rejected (RejectedWith (''Error getting diff: ''
              @ (case error d of Some message \<Rightarrow> message | None \<Rightarrow> stderr d))))
         else
           ([Exec ''git diff --cached --name-only'', Exec ''git diff --cached''],
            Resolved (split_on (CHR 0x0A) (trim (stdout r)), stdout d)))"
  unfolding getStagedFilesAndDiff_def Let_def
  by (auto simp: exec_def then_io_Resolved split: option.splits)

lemma defaultCommand_config:
  \<open>defaultCommand w =
     (case fs_files w (getGlobalConfigPath w) of
        None \<Rightarrow>
          if fs_unreadable w (getGlobalConfigPath w) then
            (header w, Rejected (FsError (getGlobalConfigPath w)))
          else
            ([Log ''Executing commit...'', Access (getGlobalConfigPath w),
              Log ''Configuration not found. Please run "commit --setup" first.''], Resolved ())
      | Some text \<Rightarrow>
          (case JSON_parse text of
             None \<Rightarrow> (header w, Rejected SyntaxError)
           | Some config \<Rightarrow>
               (case get_prop config ''aiProvider'' of
                  Inl e \<Rightarrow> (header w, Rejected e)
                | Inr provider \<Rightarrow>
                    if provider \<noteq> Some (JStr ''Anthropic'') then
                      (header w @ [Log ''This command only works with Anthropic for now.''],
                       Resolved ())
                    else
                      then_io (header w, Resolved ()) (\<lambda>_.
                      then_io (getStagedFilesAndDiff w) (after_staged w config)))))\<close>
  unfolding defaultCommand_fold after_staged_def [symmetric] Let_def header_def
  by (simp add: console_log_def fs_access_def fs_readFile_def JSON_parse_io_def lift_def
      then_io_Resolved split: option.splits sum.splits)

lemma exec_reached:
  assumes "Exec c \<in> set (fst (defaultCommand w))"
  shows "\<exists>config. defaultCommand w =
           then_io (header w, Resolved ()) (\<lambda>_.
           then_io (getStagedFilesAndDiff w) (after_staged w config))"
  using assms unfolding defaultCommand_config
  by (auto simp: header_def split: option.splits sum.splits if_splits)

lemma query_failure:
  assumes run: "cli w = (trace, ending, w')"
    and q: "Exec c \<in> set trace"
  shows "(error (child_exec w ''git diff --cached --name-only'') \<noteq> None
           \<or> stderr (child_exec w ''git diff --cached --name-only'') \<noteq> [] \<longrightarrow>
          trace = [Log ''Executing commit...'', Access (getGlobalConfigPath w),
                   ReadFile (getGlobalConfigPath w), Exec ''git diff --cached --name-only'']
          \<and> ending = UnhandledRejection (RejectedWith (''Error getting staged files: ''
               @ (case error (child_exec w ''git diff --cached --name-only'') of
                    Some message \<Rightarrow> message
                  | None \<Rightarrow> stderr (child_exec w ''git diff --cached --name-only'')))))
       \<and> (Exec ''git diff --cached'' \<in> set trace
           \<and> (error (child_exec w ''git diff --cached'') \<noteq> None
                \<or> stderr (child_exec w ''git diff --cached'') \<noteq> []) \<longrightarrow>
          trace = [Log ''Executing commit...'', Access (getGlobalConfigPath w),
                   ReadFile (getGlobalConfigPath w), Exec ''git diff --cached --name-only'',
                   Exec ''git diff --cached'']
          \<and> ending = UnhandledRejection (RejectedWith (''Error getting diff: ''
               @ (case error (child_exec w ''git diff --cached'') of
                    Some message \<Rightarrow> message
                  | None \<Rightarrow> stderr (child_exec w ''git diff --cached'')))))"
proof (cases "argv_setup w = Some True")
  case True
  then have "trace = fst (setup_cmd w)" using run cli_trace [of w] by simp
  then show ?thesis using q setup_no_Exec [of c w] by simp
next
  case False
  note e = ending_of [OF run False]
  from q e(1) obtain config where
    dc: "defaultCommand w = then_io (header w, Resolved ()) (\<lambda>_.
           then_io (getStagedFilesAndDiff w) (after_staged w config))"
    using exec_reached by blast
  let ?r = "child_exec w ''git diff --cached --name-only''"
  let ?d = "child_exec w ''git diff --cached''"
  show ?thesis
  proof (cases "error ?r \<noteq> None \<or> stderr ?r \<noteq> []")
    case True
    then have "defaultCommand w =
        (header w @ [Exec ''git diff --cached --name-only''],
         Rejected (RejectedWith (''Error getting staged files: ''
           @ (case error ?r of Some message \<Rightarrow> message | None \<Rightarrow> stderr ?r))))"
      unfolding dc getStaged_eq Let_def by (simp add: then_io_Resolved)
    then show ?thesis using e True by (auto simp: header_def)
  next
    case ok: False
    show ?thesis
    proof (cases "error ?d \<noteq> None \<or> stderr ?d \<noteq> []")
      case True
      then have "defaultCommand w =
          (header w @ [Exec ''git diff --cached --name-only'', Exec ''git diff --cached''],
           Rejected (RejectedWith (''Error getting diff: ''
             @ (case error ?d of Some message \<Rightarrow> message | None \<Rightarrow> stderr ?d))))"
        using ok unfolding dc getStaged_eq Let_def by (simp add: then_io_Resolved)
      then show ?thesis using e True ok by (auto simp: header_def)
    next
      case False
      then show ?thesis using ok by auto
    qed
  qed
qed

lemma commit_run:
  assumes run: "cli w = (trace, ending, w')"
    and at: "Exec command \<in> set trace"
    and commit: "is_commit command"
  shows "case error (child_exec w command) of
           Some message \<Rightarrow>
             ending = UnhandledRejection (RejectedWith (''Error making commit: '' @ message))
             \<and> (\<exists>pre. trace = pre @ [Exec command])
         | None \<Rightarrow>
             ending = Exited
             \<and> (\<exists>pre. trace = pre @ Exec command
                   # (if stderr (child_exec w command) \<noteq> []
                      then [Warn (''Warning while making commit: ''
                                  @ stderr (child_exec w command))]
                      else [])
                   @ [Log ''Commit successfully made.''])"
proof (cases "argv_setup w = Some True")
  case True
  then have "trace = fst (setup_cmd w)" using run cli_trace [of w] by simp
  then show ?thesis using at setup_no_Exec [of command w] by simp
next
  case False
  note e = ending_of [OF run False]
  have nq: "\<not> quiet_event (Exec command)" using commit quiet_event_not_commit by blast
  from defaultCommand_shaped [of w] consider
      (a) "quiet (defaultCommand w)"
    | (b) pre t c e where "defaultCommand w = (pre @ [ApiCall t c], Rejected (ApiError e))"
        "list_all quiet_event pre"
    | (c) pre t c msg where
        "defaultCommand w = (pre @ ApiCall t c # fst (review w msg), snd (review w msg))"
        "list_all quiet_event pre"
    unfolding shaped_def by blast
  then show ?thesis
  proof cases
    case a
    then show ?thesis using at nq e(1) by (auto simp: quiet_def list_all_iff)
  next
    case b
    then show ?thesis using at nq e(1) by (auto simp: list_all_iff)
  next
    case c
    have inr: "Exec command \<in> set (fst (review w msg))"
      using at nq e(1) c by (auto simp: list_all_iff)
    have conf: "user_confirm w"
      using inr display_Logs [of "Exec command" msg] by (cases "user_confirm w") (auto simp: review_eq)
    have cmd: "command = commit_command w msg"
      using inr conf display_Logs [of "Exec command" msg]
      by (auto simp: review_eq makeCommit_eq split: option.splits if_splits completion.splits)
    let ?P = "pre @ ApiCall t c # display msg @ [Ask ''Do you want to use this message?'']"
    show ?thesis
    proof (cases "error (child_exec w command)")
      case None
      then have "fst (defaultCommand w) = ?P @ Exec command
                   # (if stderr (child_exec w command) \<noteq> []
                      then [Warn (''Warning while making commit: ''
                                  @ stderr (child_exec w command))]
                      else [])
                   @ [Log ''Commit successfully made.'']"
        and "snd (defaultCommand w) = Resolved ()"
        using c(1) conf cmd by (simp_all add: review_eq makeCommit_eq)
      then show ?thesis using e None by auto
    next
      case (Some message)
      then have "fst (defaultCommand w) = ?P @ [Exec command]"
        and "snd (defaultCommand w) = Rejected (RejectedWith (''Error making commit: '' @ message))"
        using c(1) conf cmd by (simp_all add: review_eq makeCommit_eq)
      then show ?thesis using e Some by auto
    qed
  qed
qed

lemma declined_run:
  assumes run: "cli w = (trace, ending, w')"
    and declined: "\<not> user_confirm w"
    and asked: "Ask ''Do you want to use this message?'' \<in> set trace"
  shows "ending = Exited
       \<and> (\<exists>pre. trace = pre @ [Ask ''Do you want to use this message?'', Log ''Commit cancelled.''])"
proof (cases "argv_setup w = Some True")
  case True
  then have "trace = fst (setup_cmd w)" using run cli_trace [of w] by simp
  then show ?thesis using asked setup_no_confirm [of w] by simp
next
  case False
  note e = ending_of [OF run False]
  have nq: "\<not> quiet_event (Ask ''Do you want to use this message?'')"
    by (simp add: quiet_event_def)
  from defaultCommand_shaped [of w] consider
      (a) "quiet (defaultCommand w)"
    | (b) pre t c e where "defaultCommand w = (pre @ [ApiCall t c], Rejected (ApiError e))"
        "list_all quiet_event pre"
    | (c) pre t c msg where
        "defaultCommand w = (pre @ ApiCall t c # fst (review w msg), snd (review w msg))"
        "list_all quiet_event pre"
    unfolding shaped_def by blast
  then show ?thesis
  proof cases
    case a
    then show ?thesis using asked nq e(1) by (auto simp: quiet_def list_all_iff)
  next
    case b
    then show ?thesis using asked nq e(1) by (auto simp: list_all_iff)
  next
    case c
    then have "defaultCommand w =
        ((pre @ ApiCall t c # display msg)
           @ [Ask ''Do you want to use this message?'', Log ''Commit cancelled.''], Resolved ())"
      using declined by (simp add: review_declined)
    then have "fst (defaultCommand w) =
        (pre @ ApiCall t c # display msg)
           @ [Ask ''Do you want to use this message?'', Log ''Commit cancelled.'']"
      and "snd (defaultCommand w) = Resolved ()" by simp_all
    then show ?thesis using e by auto
  qed
qed

lemma getFilesContent_loop_blocks:
  assumes "map (fs_files w) paths = map Some texts"
  shows "getFilesContent_loop w acc paths =
           (map ReadFile paths,
            Resolved (acc @ concat (map (\<lambda>(p, t). ''File: '' @ p @ NL @ t @ NL @ NL)
                                        (zip paths texts))))"
  using assms
proof (induction paths arbitrary: acc texts)
  case Nil
  then show ?case by simp
next
  case (Cons p ps)
  then obtain t ts where texts: "texts = t # ts" by (cases texts) auto
  then have p: "fs_files w p = Some t" and ps: "map (fs_files w) ps = map Some ts"
    using Cons.prems by simp_all
  show ?case
    unfolding texts getFilesContent_loop_Cons
    by (simp add: fs_readFile_def p then_io_Resolved Cons.IH [OF ps])
qed

lemma fields_of_pair:
  "nth_opt (map trim (split_on (CHR '':'') pair)) 0 = Some (pair_name pair)"
  "truthy (nth_opt (map trim (split_on (CHR '':'') pair)) (Suc 0)) \<Longrightarrow>
     nth_opt (map trim (split_on (CHR '':'') pair)) (Suc 0) = Some (pair_description pair)"
  "truthy (nth_opt (map trim (split_on (CHR '':'') pair)) (Suc 0)) = (pair_description pair \<noteq> [])"
proof -
  let ?ne = "\<lambda>c. c \<noteq> CHR '':''"
  show "nth_opt (map trim (split_on (CHR '':'') pair)) 0 = Some (pair_name pair)"
    by (subst split_on_unfold) (simp add: nth_opt_def pair_name_def)
  have second: "nth_opt (map trim (split_on (CHR '':'') pair)) (Suc 0)
      = (case dropWhile ?ne pair of [] \<Rightarrow> None
         | _ # r \<Rightarrow> Some (trim (takeWhile ?ne r)))"
  proof (cases "dropWhile ?ne pair")
    case Nil
    show ?thesis by (subst split_on_unfold) (simp add: nth_opt_def Nil)
  next
    case (Cons x r)
    have "split_on (CHR '':'') pair = takeWhile ?ne pair # split_on (CHR '':'') r"
      by (subst split_on_unfold) (simp add: Cons)
    also have "split_on (CHR '':'') r = takeWhile ?ne r
        # (case dropWhile ?ne r of [] \<Rightarrow> [] | _ # r' \<Rightarrow> split_on (CHR '':'') r')"
      by (rule split_on_unfold)
    finally show ?thesis by (simp add: nth_opt_def Cons)
  qed
  show "nth_opt (map trim (split_on (CHR '':'') pair)) (Suc 0) = Some (pair_description pair)"
    if "truthy (nth_opt (map trim (split_on (CHR '':'') pair)) (Suc 0))"
  proof (cases "dropWhile ?ne pair")
    case Nil
    show ?thesis using that unfolding second by (simp add: Nil truthy_def)
  next
    case (Cons x r)
    show ?thesis unfolding second by (simp add: Cons pair_description_def)
  qed
  show "truthy (nth_opt (map trim (split_on (CHR '':'') pair)) (Suc 0)) = (pair_description pair \<noteq> [])"
  proof (cases "dropWhile ?ne pair")
    case Nil
    show ?thesis unfolding second by (simp add: Nil truthy_def pair_description_def trim_Nil)
  next
    case (Cons x r)
    show ?thesis unfolding second by (simp add: Cons truthy_def pair_description_def)
  qed
qed

lemma filter_customCommitTypes_eq:
  "filter_customCommitTypes input =
     map (\<lambda>pair. \<lparr>name = Some (pair_name pair), description = Some (pair_description pair),
                    checked = None\<rparr>)
       (filter (\<lambda>pair. pair_name pair \<noteq> [] \<and> pair_description pair \<noteq> [])
          (split_on (CHR '','') input))"
proof -
  define parse where "parse = (\<lambda>type.
                 let parts = map trim (split_on (CHR '':'') type)
                 in \<lparr>name = nth_opt parts 0, description = nth_opt parts 1, checked = None\<rparr>)"
  define keep where "keep = (\<lambda>type :: commit_type. truthy (name type) \<and> truthy (description type))"
  have n: "name (parse p) = Some (pair_name p)" for p
    by (simp add: parse_def Let_def fields_of_pair(1))
  have d: "description (parse p) = nth_opt (map trim (split_on (CHR '':'') p)) (Suc 0)" for p
    by (simp add: parse_def Let_def)
  have c: "checked (parse p) = None" for p
    by (simp add: parse_def Let_def)
  have k: "keep (parse p) = (pair_name p \<noteq> [] \<and> pair_description p \<noteq> [])" for p
    unfolding keep_def n d fields_of_pair(3) by (simp add: truthy_def)
  have v: "parse p = \<lparr>name = Some (pair_name p), description = Some (pair_description p),
                       checked = None\<rparr>" if "keep (parse p)" for p
  proof -
    have "truthy (nth_opt (map trim (split_on (CHR '':'') p)) (Suc 0))"
      using that unfolding keep_def d by simp
    then have "description (parse p) = Some (pair_description p)"
      unfolding d by (rule fields_of_pair(2))
    then show ?thesis using n [of p] c [of p] by (cases "parse p") simp
  qed
  have "filter keep (map parse ps)
        = map (\<lambda>pair. \<lparr>name = Some (pair_name pair), description = Some (pair_description pair),
                    checked = None\<rparr>)
            (filter (\<lambda>pair. pair_name pair \<noteq> [] \<and> pair_description pair \<noteq> []) ps)" for ps
  proof (induction ps)
    case Nil
    show ?case by simp
  next
    case (Cons p ps)
    show ?case
    proof (cases "keep (parse p)")
      case True
      then show ?thesis using Cons k [of p] v [of p] by simp
    next
      case False
      then show ?thesis using Cons k [of p] by auto
    qed
  qed
  then show ?thesis by (simp add: filter_customCommitTypes_def parse_def keep_def)
qed


lemma commit_needs_approval:
  assumes run: "cli w = (trace, ending, w')"
    and at: "trace = before @ Exec command # after"
    and commit: "is_commit command"
  shows "user_confirm w \<and> Ask ''Do you want to use this message?'' \<in> set before"
proof (cases "argv_setup w = Some True")
  case True
  have "Exec command \<in> set trace" using at by simp
  moreover have "trace = fst (setup_cmd w)" using True run cli_trace [of w] by simp
  ultimately show ?thesis using setup_no_Exec [of command w] by simp
next
  case False
  then have tr: "trace = fst (defaultCommand w)" using run cli_trace [of w] by simp
  have mem: "Exec command \<in> set trace" using at by simp
  have nq: "\<not> quiet_event (Exec command)" using commit quiet_event_not_commit by blast
  from defaultCommand_shaped [of w] consider
      (a) "quiet (defaultCommand w)"
    | (b) pre t c e where "defaultCommand w = (pre @ [ApiCall t c], Rejected (ApiError e))"
        "list_all quiet_event pre"
    | (c) pre t c msg where
        "defaultCommand w = (pre @ ApiCall t c # fst (review w msg), snd (review w msg))"
        "list_all quiet_event pre"
    unfolding shaped_def by blast
  then show ?thesis
  proof cases
    case a
    then show ?thesis using mem nq tr by (auto simp: quiet_def list_all_iff)
  next
    case b
    then show ?thesis using mem nq tr by (auto simp: list_all_iff)
  next
    case c
    let ?A = "pre @ ApiCall t c # display msg"
    let ?q = "Ask ''Do you want to use this message?''"
    obtain R where R: "fst (review w msg) = display msg @ ?q # R"
      and Rdecl: "\<not> user_confirm w \<Longrightarrow> R = [Log ''Commit cancelled.'']"
      by (cases "user_confirm w") (auto simp: review_eq)
    have notA: "Exec command \<notin> set ?A"
      using nq c(2) display_Logs [of "Exec command" msg] by (auto simp: list_all_iff)
    have "before @ Exec command # after = ?A @ (?q # R)"
      using tr at c(1) R by simp
    from split_after [OF this notA] obtain zs where
      zs: "before = ?A @ zs" "?q # R = zs @ Exec command # after" by blast
    then obtain zs' where zs': "zs = ?q # zs'" "R = zs' @ Exec command # after"
      by (cases zs) auto
    have "Exec command \<in> set R" using zs'(2) by simp
    then have "user_confirm w" using Rdecl by (cases "user_confirm w") auto
    moreover have "?q \<in> set before" using zs(1) zs'(1) by simp
    ultimately show ?thesis by simp
  qed
qed

lemma hex_val_hex_digit: "d < 16 \<Longrightarrow> hex_val (hex_digit d) = Some d"
  by (auto simp: hex_val_def hex_digit_def Let_def)

lemma hex_val_zero: "hex_val (CHR ''0'') = Some 0"
  by (simp add: hex_val_def)

lemma unicode_escape_control:
  assumes "(of_char c :: nat) < 0x20"
  shows "unicode_escape (CHR ''0'' # CHR ''0'' # hex_digit ((of_char c :: nat) div 16)
            # hex_digit ((of_char c :: nat) mod 16) # r) = Some ([c], r)"
proof -
  let ?n = "of_char c :: nat"
  have "hex4 (CHR ''0'' # CHR ''0'' # hex_digit (?n div 16) # hex_digit (?n mod 16) # r)
        = Some (16 * (?n div 16) + ?n mod 16, r)"
    using assms by (simp add: hex_val_zero hex_val_hex_digit)
  then have "hex4 (CHR ''0'' # CHR ''0'' # hex_digit (?n div 16) # hex_digit (?n mod 16) # r)
        = Some (?n, r)" by simp
  moreover have "utf8 ?n = [c]" using assms by (simp add: utf8_def)
  ultimately show ?thesis using assms by (simp add: unicode_escape_def)
qed

lemma parse_chars_quote_char:
  assumes "parse_chars r = Some (s, rest)"
  shows "parse_chars (quote_char c @ r) = Some (c # s, rest)"
proof -
  consider (b) "c = CHR 0x08" | (t) "c = CHR 0x09" | (n) "c = CHR 0x0A" | (f) "c = CHR 0x0C"
    | (r) "c = CHR 0x0D" | (q) "c = CHR 0x22" | (bs) "c = CHR 0x5C"
    | (ctl) "c \<notin> {CHR 0x08, CHR 0x09, CHR 0x0A, CHR 0x0C, CHR 0x0D, CHR 0x22, CHR 0x5C}"
            "(of_char c :: nat) < 0x20"
    | (raw) "c \<notin> {CHR 0x08, CHR 0x09, CHR 0x0A, CHR 0x0C, CHR 0x0D, CHR 0x22, CHR 0x5C}"
            "\<not> (of_char c :: nat) < 0x20"
    by blast
  then show ?thesis
  proof cases
    case ctl
    then have q: "quote_char c = [CHR 0x5C, CHR ''u'', CHR ''0'', CHR ''0'',
         hex_digit ((of_char c :: nat) div 16), hex_digit ((of_char c :: nat) mod 16)]"
      by (simp add: quote_char_def)
    show ?thesis
      unfolding q using assms ctl(2)
      by (simp add: unicode_escape_control)
  next
    case raw
    then have q: "quote_char c = [c]" by (simp add: quote_char_def)
    show ?thesis unfolding q using assms raw by simp
  qed (simp_all add: quote_char_def simple_escape_def assms)
qed

lemma parse_chars_quoted:
  "parse_chars (concat (map quote_char s) @ CHR 0x22 # rest) = Some (s, rest)"
  by (induction s) (simp_all add: parse_chars_quote_char)

lemma skip_ws_append: "all_ws ws \<Longrightarrow> skip_ws (ws @ s) = skip_ws s"
  by (simp add: skip_ws_def all_ws_def dropWhile_append2)

lemma skip_ws_Cons_other: "\<not> json_ws c \<Longrightarrow> skip_ws (c # s) = c # s"
  by (simp add: skip_ws_def)

lemma all_ws_simps [simp]:
  "all_ws []" "all_ws (indent d)" "all_ws NL" "all_ws '' ''"
  "all_ws a \<Longrightarrow> all_ws b \<Longrightarrow> all_ws (a @ b)"
  by (auto simp: all_ws_def indent_def json_ws_def)

lemma parse_value_ws: "all_ws ws \<Longrightarrow> parse_value (ws @ s) = parse_value s"
  by (subst (1 2) parse_value.simps) (simp add: skip_ws_append)

lemma stringify_first:
  "no_num v \<Longrightarrow> \<exists>c r. stringify d v = c # r \<and> starts_value c"
  by (cases v) (auto simp: starts_value_def quote_def)

lemma parse_value_string:
  "parse_value (quote s @ rest) = Some (JStr s, rest)"
  by (subst parse_value.simps)
     (simp add: quote_def skip_ws_Cons_other json_ws_def parse_chars_quoted)

lemma parse_value_literals:
  "parse_value (''null'' @ rest) = Some (JNull, rest)"
  "parse_value (''true'' @ rest) = Some (JBool True, rest)"
  "parse_value (''false'' @ rest) = Some (JBool False, rest)"
  by (subst parse_value.simps, simp add: skip_ws_Cons_other json_ws_def literal_def)+


lemma skip_ws_Cons: "skip_ws (c # s) = (if json_ws c then skip_ws s else c # s)"
  by (simp add: skip_ws_def)

lemma skip_ws_indent: "skip_ws (indent d @ s) = skip_ws s"
  by (simp add: skip_ws_append)

lemmas ws_simps = skip_ws_Cons skip_ws_indent json_ws_def

lemma join_Cons: "xs \<noteq> [] \<Longrightarrow> join sep (x # xs) = x @ sep @ join sep xs"
  by (cases xs) simp_all

lemma starts_value_facts:
  "starts_value c \<Longrightarrow> \<not> json_ws c \<and> c \<noteq> CHR '']'' \<and> c \<noteq> CHR ''}''"
  by (auto simp: starts_value_def json_ws_def)

lemma all_ws_Cons [simp]: "all_ws (c # cs) = (json_ws c \<and> all_ws cs)"
  by (simp add: all_ws_def)

lemma parse_elements_joined:
  assumes each: "\<And>v ws rest. v \<in> set vs \<Longrightarrow> all_ws ws \<Longrightarrow>
                   parse_value (ws @ stringify d v @ rest) = Some (v, rest)"
    and "vs \<noteq> []" and "all_ws ws"
  shows "parse_elements (ws @ join ('','' @ NL @ indent d) (map (stringify d) vs)
                            @ NL @ indent d0 @ '']'' @ rest) = Some (vs, rest)"
  using assms(2,1,3)
proof (induction vs arbitrary: ws rule: list_nonempty_induct)
  case (single v)
  have "parse_value (ws @ stringify d v @ NL @ indent d0 @ '']'' @ rest)
        = Some (v, NL @ indent d0 @ '']'' @ rest)"
    using single by simp
  moreover have "skip_ws (NL @ indent d0 @ '']'' @ rest) = CHR '']'' # rest"
    by (simp add: ws_simps)
  ultimately show ?case
    by (subst parse_elements.simps) simp
next
  case (cons v vs)
  let ?sep = "'','' @ NL @ indent d"
  let ?tail = "join ?sep (map (stringify d) vs) @ NL @ indent d0 @ '']'' @ rest"
  have j: "join ?sep (map (stringify d) (v # vs))
           = stringify d v @ '','' @ (NL @ indent d) @ join ?sep (map (stringify d) vs)"
    using cons.hyps by (simp add: join_Cons)
  have pv: "parse_value (ws @ stringify d v @ '','' @ (NL @ indent d) @ ?tail)
        = Some (v, '','' @ (NL @ indent d) @ ?tail)"
    using cons.prems by simp
  have sk: "skip_ws ('','' @ (NL @ indent d) @ ?tail) = CHR '','' # (NL @ indent d) @ ?tail"
    by (simp add: ws_simps)
  have rec: "parse_elements ((NL @ indent d) @ ?tail) = Some (vs, rest)"
    using cons.IH [of "NL @ indent d"] cons.prems by (simp add: json_ws_def)
  show ?case
    unfolding j
    apply (subst parse_elements.simps)
    using pv sk rec apply simp
    done
qed


lemma parse_members_joined:
  assumes each: "\<And>m ws rest. m \<in> set ms \<Longrightarrow> all_ws ws \<Longrightarrow>
                   parse_value (ws @ stringify d (snd m) @ rest) = Some (snd m, rest)"
    and "ms \<noteq> []" and "all_ws ws"
  shows "parse_members (ws @ join ('','' @ NL @ indent d)
                                 (map (\<lambda>m. quote (fst m) @ '': '' @ stringify d (snd m)) ms)
                           @ NL @ indent d0 @ ''}'' @ rest) = Some (ms, rest)"
  using assms(2,1,3)
proof (induction ms arbitrary: ws rule: list_nonempty_induct)
  case (single m)
  let ?after = "NL @ indent d0 @ ''}'' @ rest"
  have sk0: "skip_ws (ws @ quote (fst m) @ '': '' @ stringify d (snd m) @ ?after)
             = CHR 0x22 # concat (map quote_char (fst m)) @ CHR 0x22
                 # '': '' @ stringify d (snd m) @ ?after"
    using single.prems(2) by (simp add: skip_ws_append quote_def ws_simps)
  have key: "parse_chars (concat (map quote_char (fst m)) @ CHR 0x22
                 # '': '' @ stringify d (snd m) @ ?after)
             = Some (fst m, '': '' @ stringify d (snd m) @ ?after)"
    by (rule parse_chars_quoted)
  have sk1: "skip_ws ('': '' @ stringify d (snd m) @ ?after)
             = CHR '':'' # '' '' @ stringify d (snd m) @ ?after"
    by (simp add: ws_simps)
  have pv: "parse_value ('' '' @ stringify d (snd m) @ ?after) = Some (snd m, ?after)"
    using single.prems(1) [of m "'' ''"] by (simp add: json_ws_def)
  have sk2: "skip_ws ?after = CHR ''}'' # rest"
    by (simp add: ws_simps)
  show ?case
    apply (subst parse_members.simps)
    using sk0 key sk1 pv sk2 apply (simp add: quote_def)
    done
next
  case (cons m ms)
  let ?sep = "'','' @ NL @ indent d"
  let ?f = "\<lambda>m. quote (fst m) @ '': '' @ stringify d (snd m)"
  let ?tail = "join ?sep (map ?f ms) @ NL @ indent d0 @ ''}'' @ rest"
  let ?after = "'','' @ (NL @ indent d) @ ?tail"
  have j: "join ?sep (map ?f (m # ms)) = ?f m @ '','' @ (NL @ indent d) @ join ?sep (map ?f ms)"
    using cons.hyps by (simp add: join_Cons)
  have sk0: "skip_ws (ws @ quote (fst m) @ '': '' @ stringify d (snd m) @ ?after)
             = CHR 0x22 # concat (map quote_char (fst m)) @ CHR 0x22
                 # '': '' @ stringify d (snd m) @ ?after"
    using cons.prems(2) by (simp add: skip_ws_append quote_def ws_simps)
  have key: "parse_chars (concat (map quote_char (fst m)) @ CHR 0x22
                 # '': '' @ stringify d (snd m) @ ?after)
             = Some (fst m, '': '' @ stringify d (snd m) @ ?after)"
    by (rule parse_chars_quoted)
  have sk1: "skip_ws ('': '' @ stringify d (snd m) @ ?after)
             = CHR '':'' # '' '' @ stringify d (snd m) @ ?after"
    by (simp add: ws_simps)
  have pv: "parse_value ('' '' @ stringify d (snd m) @ ?after) = Some (snd m, ?after)"
    using cons.prems(1) [of m "'' ''"] by (simp add: json_ws_def)
  have sk2: "skip_ws ?after = CHR '','' # (NL @ indent d) @ ?tail"
    by (simp add: ws_simps)
  have rec: "parse_members ((NL @ indent d) @ ?tail) = Some (ms, rest)"
    using cons.IH [of "NL @ indent d"] cons.prems by (simp add: json_ws_def)
  show ?case
    unfolding j
    apply (subst parse_members.simps)
    using sk0 key sk1 pv sk2 rec apply (simp add: quote_def)
    done
qed

lemma parse_stringify:
  "no_num v \<Longrightarrow> all_ws ws \<Longrightarrow> parse_value (ws @ stringify d v @ rest) = Some (v, rest)"
proof (induction v arbitrary: d ws rest)
  case JNull
  then show ?case using parse_value_literals(1) [of rest] by (simp add: parse_value_ws)
next
  case (JBool b)
  then show ?case
    using parse_value_literals(2,3) [of rest] by (cases b) (simp_all add: parse_value_ws)
next
  case (JNum n)
  then show ?case by simp
next
  case (JStr s)
  then show ?case using parse_value_string [of s rest] by (simp add: parse_value_ws)
next
  case (JArr vs)
  show ?case
  proof (cases "vs = []")
    case True
    then show ?thesis
      using JArr.prems(2)
      by (subst parse_value.simps) (simp add: skip_ws_append ws_simps)
  next
    case False
    let ?sep = "'','' @ NL @ indent (Suc d)"
    let ?body = "join ?sep (map (stringify (Suc d)) vs) @ NL @ indent d @ '']'' @ rest"
    obtain v vs' where vs: "vs = v # vs'" using False by (cases vs) auto
    have "no_num v" using JArr.prems(1) vs by simp
    then obtain c r where c: "stringify (Suc d) v = c # r" "starts_value c"
      using stringify_first by blast
    have "join ?sep (map (stringify (Suc d)) vs) = c # r @ (if vs' = [] then [] else ?sep @ join ?sep (map (stringify (Suc d)) vs'))"
      unfolding vs using c(1) by (cases vs') simp_all
    then have first: "skip_ws (NL @ indent (Suc d) @ ?body)
        = c # r @ (if vs' = [] then [] else ?sep @ join ?sep (map (stringify (Suc d)) vs'))
            @ NL @ indent d @ '']'' @ rest"
      using starts_value_facts [OF c(2)] by (simp add: ws_simps)
    have each: "\<And>v ws rest. v \<in> set vs \<Longrightarrow> all_ws ws \<Longrightarrow>
                   parse_value (ws @ stringify (Suc d) v @ rest) = Some (v, rest)"
      using JArr.IH JArr.prems(1) by simp
    have elems: "parse_elements ((NL @ indent (Suc d)) @ ?body) = Some (vs, rest)"
      using parse_elements_joined [OF each False, of "NL @ indent (Suc d)" d rest]
      by (simp add: json_ws_def)
    have "parse_value (''['' @ NL @ indent (Suc d) @ ?body) = Some (JArr vs, rest)"
      apply (subst parse_value.simps)
      using first elems starts_value_facts [OF c(2)] apply (simp add: ws_simps)
      done
    then show ?thesis using False JArr.prems(2) by (simp add: parse_value_ws)
  qed
next
  case (JObj ms)
  show ?case
  proof (cases "ms = []")
    case True
    then show ?thesis
      using JObj.prems(2)
      by (subst parse_value.simps) (simp add: skip_ws_append ws_simps)
  next
    case False
    let ?sep = "'','' @ NL @ indent (Suc d)"
    let ?f = "\<lambda>m. quote (fst m) @ '': '' @ stringify (Suc d) (snd m)"
    let ?body = "join ?sep (map ?f ms) @ NL @ indent d @ ''}'' @ rest"
    obtain m ms' where ms: "ms = m # ms'" using False by (cases ms) auto
    have "join ?sep (map ?f ms) = CHR 0x22 # concat (map quote_char (fst m)) @ [CHR 0x22]
            @ '': '' @ stringify (Suc d) (snd m)
            @ (if ms' = [] then [] else ?sep @ join ?sep (map ?f ms'))"
      unfolding ms by (cases ms') (simp_all add: quote_def)
    then have first: "skip_ws (NL @ indent (Suc d) @ ?body)
        = CHR 0x22 # concat (map quote_char (fst m)) @ [CHR 0x22]
            @ '': '' @ stringify (Suc d) (snd m)
            @ (if ms' = [] then [] else ?sep @ join ?sep (map ?f ms'))
            @ NL @ indent d @ ''}'' @ rest"
      by (simp add: ws_simps)
    have each: "\<And>m ws rest. m \<in> set ms \<Longrightarrow> all_ws ws \<Longrightarrow>
                   parse_value (ws @ stringify (Suc d) (snd m) @ rest) = Some (snd m, rest)"
    proof -
      fix m ws rest
      assume m: "m \<in> set ms" and ws: "all_ws ws"
      have "snd m \<in> Basic_BNFs.snds m" by (cases m) simp
      moreover have "no_num (snd m)" using JObj.prems(1) m by simp
      ultimately show "parse_value (ws @ stringify (Suc d) (snd m) @ rest) = Some (snd m, rest)"
        using JObj.IH [OF m] ws by blast
    qed
    have membs: "parse_members ((NL @ indent (Suc d)) @ ?body) = Some (ms, rest)"
      using parse_members_joined [OF each False, of "NL @ indent (Suc d)" d rest]
      by (simp add: json_ws_def)
    have "parse_value (''{'' @ NL @ indent (Suc d) @ ?body) = Some (JObj ms, rest)"
      apply (subst parse_value.simps)
      using first membs apply (simp add: ws_simps)
      done
    then show ?thesis using False JObj.prems(2) by (simp add: parse_value_ws)
  qed
qed

lemma JSON_round_trip: "no_num v \<Longrightarrow> JSON_parse (JSON_stringify v) = Some v"
  using parse_stringify [of v "[]" 0 "[]"]
  by (simp add: JSON_parse_def JSON_stringify_def skip_ws_def)

lemma no_num_answers: "no_num (answers_json c)"
  by (auto simp: answers_json_def commit_type_json_def own_prop_def split: option.splits)

lemma commit_type_json_inj: "commit_type_json s = commit_type_json t \<Longrightarrow> s = t"
  by (cases s; cases t)
     (auto simp: commit_type_json_def own_prop_def split: option.splits)

lemma map_commit_type_json_inj:
  "map commit_type_json xs = map commit_type_json ys \<Longrightarrow> xs = ys"
  using commit_type_json_inj by (metis inj_onI inj_map_eq_map)

lemma answers_json_inj: "answers_json c' = answers_json c \<Longrightarrow> c' = c"
  by (cases c; cases c')
     (auto simp: answers_json_def own_prop_def split: option.splits
           dest: map_commit_type_json_inj)

lemma setup_saves:
  assumes asked: "prompt_questions w = (es, Resolved a)"
    and writable: "fs_writable w (getGlobalConfigPath w)"
  shows "\<exists>custom.
           customCommitTypes a = Some custom
           \<and> setup_cmd w =
               (Log ''Running setup...'' # es
                  @ [WriteFile (getGlobalConfigPath w)
                       (JSON_stringify (answers_json
                          (a\<lparr>commitTypes := commitTypes a @ custom, customCommitTypes := None\<rparr>))),
                     Log (''Configuration saved in '' @ getGlobalConfigPath w)],
                Resolved (w\<lparr>fs_files := (fs_files w)(getGlobalConfigPath w \<mapsto>
                       JSON_stringify (answers_json
                          (a\<lparr>commitTypes := commitTypes a @ custom,
                             customCommitTypes := None\<rparr>)))\<rparr>))"
proof -
  obtain custom where c: "customCommitTypes a = Some custom"
    using asked unfolding prompt_questions_def Let_def
    by (auto simp: then_io_def ask_def split: prod.splits completion.splits option.splits if_splits)
  show ?thesis
    unfolding setup_cmd_def asked Let_def
    by (simp add: c then_io_Resolved console_log_def fs_writeFile_def writable)
qed


section \<open>The claims\<close>

subsection \<open>The commit needs the user's approval\<close>

text \<open>
  Claim C1. A commit is only ever executed with a message the user has approved: in
  every run of the program (either branch of the dispatch), wherever the trace holds
  the execution of a \<^verbatim>\<open>git commit\<close> command line, the confirmation question has been
  asked before it and the user has answered yes. No other path executes a commit.
\<close>

theorem commit_only_after_approval:
  assumes "cli w = (trace, ending, w')"
    and "trace = before @ Exec command # after"
    and "is_commit command"
  shows "user_confirm w \<and> Ask ''Do you want to use this message?'' \<in> set before"
  using assms by (rule commit_needs_approval)

theorem commit_only_after_approval_witness:
  \<open>is_commit ''git commit -m "feat: add logging\<newline>\<newline>adds a debug log line"''
   \<and> fst (cli example_world)
       = take 14 (fst (cli example_world))
         @ Exec ''git commit -m "feat: add logging\<newline>\<newline>adds a debug log line"''
         # drop 15 (fst (cli example_world))
   \<and> user_confirm example_world
   \<and> Ask ''Do you want to use this message?'' \<in> set (take 14 (fst (cli example_world)))\<close>
proof -
  have run: "cli example_world
             = (fst (cli example_world), fst (snd (cli example_world)), snd (snd (cli example_world)))"
    by simp
  have at: \<open>fst (cli example_world)
            = take 14 (fst (cli example_world))
              @ Exec ''git commit -m "feat: add logging\<newline>\<newline>adds a debug log line"''
              # drop 15 (fst (cli example_world))\<close>
    by code_simp
  have commit: \<open>is_commit ''git commit -m "feat: add logging\<newline>\<newline>adds a debug log line"''\<close>
    by code_simp
  from commit_only_after_approval [OF run at commit] at commit show ?thesis
    by (intro conjI) simp_all
qed

subsection \<open>The approved message and what is committed\<close>

text \<open>
  Up to the call of \<^verbatim>\<open>exec\<close> the approved text is unchanged: when the generation
  service answered the request of this run with \<open>message\<close> and the user approves, the
  review shows the message split into subject and body (\<open>display\<close>), and the command
  line executed right after the question is \<^verbatim>\<open>git commit\<close>, the signing flag if asked
  for, and \<^verbatim>\<open>-m "message"\<close> with the text of the message between the quotes. It is
  the only commit of the run.
\<close>

lemma approved_message_reaches_exec:
  assumes run: "cli w = (trace, ending, w')"
    and api: "ApiCall token content \<in> set trace"
    and response: "messages_create w token content = Inr message"
    and approved: "user_confirm w"
  shows \<open>\<exists>pre after.
           trace = pre @ ApiCall token content # display message
                   @ Ask ''Do you want to use this message?''
                   # Exec (''git commit '' @ (if argv_S w = Some True then ''-S '' else [])
                           @ ''-m "'' @ message @ ''"'')
                   # after
           \<and> (\<forall>c. Exec c \<in> set pre \<union> set after \<longrightarrow> \<not> is_commit c)\<close>
proof -
  from generated_run [OF run api response] obtain pre where
    pre: "trace = pre @ ApiCall token content # fst (review w message)"
      "list_all quiet_event pre" by blast
  from review_confirmed [OF approved, of message] obtain rest where
    rest: "fst (review w message)
           = display message @ Ask ''Do you want to use this message?''
               # Exec (commit_command w message) # rest"
      "\<forall>c. Exec c \<notin> set rest" by blast
  have "\<forall>c. Exec c \<in> set pre \<union> set rest \<longrightarrow> \<not> is_commit c"
    using pre(2) rest(2) quiet_event_not_commit by (auto simp: list_all_iff)
  moreover have "trace = pre @ ApiCall token content # display message
                   @ Ask ''Do you want to use this message?''
                   # Exec (commit_command w message) # rest"
    using pre(1) rest(1) by simp
  ultimately show ?thesis unfolding commit_command_def by blast
qed

text \<open>
  The shell then reads that command line. A message without a double quote, a
  \<^verbatim>\<open>$\<close>, a backquote or a backslash reaches \<^verbatim>\<open>git\<close> as the one argument after
  \<^verbatim>\<open>-m\<close>, unchanged, line breaks included.
\<close>

lemma sh_dquote_literal:
  assumes "\<forall>c \<in> set m. c \<notin> {CHR 0x22, CHR ''$'', CHR 0x60, CHR 0x5C}"
  shows "sh_dquote w (m @ CHR 0x22 # rest) = sh_words (Some (w @ m)) rest"
  using assms
proof (induction m arbitrary: w)
  case Nil
  show ?case by (cases rest) simp_all
next
  case (Cons c m)
  obtain e cs where tail: "m @ CHR 0x22 # rest = e # cs"
    by (cases "m @ CHR 0x22 # rest") auto
  have "sh_dquote w (c # e # cs) = sh_dquote (w @ [c]) (e # cs)"
    using Cons.prems by simp
  also have "\<dots> = sh_words (Some ((w @ [c]) @ m)) rest"
    unfolding tail [symmetric] using Cons.IH [of "w @ [c]"] Cons.prems by simp
  finally show ?case using tail by simp
qed

lemma plain_message_reaches_git:
  assumes "\<forall>c \<in> set message. c \<notin> {CHR 0x22, CHR ''$'', CHR 0x60, CHR 0x5C}"
  shows "sh_words None (commit_command w message)
         = Some ([''git'', ''commit''] @ (if argv_S w = Some True then [''-S''] else [])
                 @ [''-m'', message])"
proof -
  have q: "sh_dquote [] (message @ [CHR 0x22]) = Some [message]"
    using sh_dquote_literal [OF assms, of "[]" "[]"] by simp
  show ?thesis
    by (simp add: commit_command_def sh_blank_def sh_plain_def q)
qed

text \<open>
  Claim C2: for every generated message text, what is committed when the user approves
  is exactly that text. The program puts the text between double quotes in a command
  line for the shell and escapes nothing: the message
  \<^verbatim>\<open>fix: handle "quoted" names\<close>, approved, is executed as the command line below,
  of which the shell makes the argument \<^verbatim>\<open>fix: handle quoted names\<close>. \<^verbatim>\<open>git\<close>
  commits a text that is not the approved one.
\<close>

theorem quoted_message_is_changed_by_the_shell:
  \<open>messages_create quoting_world (Some (JStr ''k''))
      (prompt_content ''- feat: A new feature''
         ''File: a.js\<newline>console.log(1)\<newline>\<newline>'' ''+console.log(1)'')
     = Inr ''fix: handle "quoted" names''
   \<and> user_confirm quoting_world
   \<and> filter (\<lambda>e. case e of Log _ \<Rightarrow> False | _ \<Rightarrow> True) (fst (cli quoting_world))
     = [Access ''/home/u/.mo-commit-config.json'', ReadFile ''/home/u/.mo-commit-config.json'',
        Exec ''git diff --cached --name-only'', Exec ''git diff --cached'', ReadFile ''a.js'',
        ApiCall (Some (JStr ''k''))
          (prompt_content ''- feat: A new feature''
             ''File: a.js\<newline>console.log(1)\<newline>\<newline>'' ''+console.log(1)''),
        Ask ''Do you want to use this message?'',
        Exec ''git commit -m "fix: handle "quoted" names"'',
        Warn ''Warning while making commit: hook output'']
   \<and> fst (snd (cli quoting_world)) = Exited
   \<and> sh_words None ''git commit -m "fix: handle "quoted" names"''
     = Some [''git'', ''commit'', ''-m'', ''fix: handle quoted names'']
   \<and> ''fix: handle quoted names'' \<noteq> ''fix: handle "quoted" names''\<close>
proof -
  have response: \<open>messages_create quoting_world (Some (JStr ''k''))
      (prompt_content ''- feat: A new feature''
         ''File: a.js\<newline>console.log(1)\<newline>\<newline>'' ''+console.log(1)'')
     = Inr ''fix: handle "quoted" names''\<close>
    by (simp add: quoting_world_def)
  have approved: "user_confirm quoting_world"
    by (simp add: quoting_world_def example_world_def)
  have events: \<open>filter (\<lambda>e. case e of Log _ \<Rightarrow> False | _ \<Rightarrow> True) (fst (cli quoting_world))
     = [Access ''/home/u/.mo-commit-config.json'', ReadFile ''/home/u/.mo-commit-config.json'',
        Exec ''git diff --cached --name-only'', Exec ''git diff --cached'', ReadFile ''a.js'',
        ApiCall (Some (JStr ''k''))
          (prompt_content ''- feat: A new feature''
             ''File: a.js\<newline>console.log(1)\<newline>\<newline>'' ''+console.log(1)''),
        Ask ''Do you want to use this message?'',
        Exec ''git commit -m "fix: handle "quoted" names"'',
        Warn ''Warning while making commit: hook output'']\<close>
    by code_simp
  have ending: "fst (snd (cli quoting_world)) = Exited"
    by code_simp
  have words: \<open>sh_words None ''git commit -m "fix: handle "quoted" names"''
     = Some [''git'', ''commit'', ''-m'', ''fix: handle quoted names'']\<close>
    by code_simp
  have changed: \<open>''fix: handle quoted names'' \<noteq> ''fix: handle "quoted" names''\<close>
    by simp
  from response approved events ending words changed show ?thesis by (intro conjI)
qed

subsection \<open>Custom commit types in \<^verbatim>\<open>setup\<close>\<close>

text \<open>
  Claim C3, as the specification words it: each pair is trimmed and split on its first
  colon, so that everything after the first colon is the description. The filter of the
  program instead splits the pair on every colon and keeps the first two fields: a
  description that holds a colon is cut at it.
\<close>

theorem first_colon_split_counterexample:
  "filter_customCommitTypes ''build:ci:tweaks''
     = [\<lparr>name = Some ''build'', description = Some ''ci'', checked = None\<rparr>]
   \<and> first_colon_customCommitTypes ''build:ci:tweaks''
     = [\<lparr>name = Some ''build'', description = Some ''ci:tweaks'', checked = None\<rparr>]
   \<and> filter_customCommitTypes ''build:ci:tweaks''
     \<noteq> first_colon_customCommitTypes ''build:ci:tweaks''"
  by code_simp

text \<open>
  Claim C3, amended. Each comma-separated pair is split on its colons; the name is the
  text before the first colon and the description is the text between the first and the
  second colon (to the end of the pair when there is no second colon), each trimmed;
  what follows a second colon is not kept. A pair whose name or description is empty,
  or that has no colon, is dropped. The commit types written to the configuration file
  are the ticked defaults followed by the parsed custom types, in order.
\<close>

theorem custom_types_follow_the_selected_defaults:
  assumes asked: "prompt_questions w = (es, Resolved a)"
    and writable: "fs_writable w (getGlobalConfigPath w)"
  shows "filter_customCommitTypes (enter_custom (user_setup w))
           = map (\<lambda>pair. \<lparr>name = Some (pair_name pair),
                           description = Some (pair_description pair), checked = None\<rparr>)
               (filter (\<lambda>pair. pair_name pair \<noteq> [] \<and> pair_description pair \<noteq> [])
                  (split_on (CHR '','') (enter_custom (user_setup w))))
       \<and> (\<exists>es' w'.
             setup_cmd w = (es', Resolved w')
             \<and> fs_files w' (getGlobalConfigPath w)
                 = Some (JSON_stringify (answers_json
                     \<lparr>aiProvider = aiProvider a, apiToken = apiToken a,
                      commitTypes =
                        map fst (filter snd (zip defaultCommitTypes (tick_types (user_setup w))))
                        @ filter_customCommitTypes (enter_custom (user_setup w)),
                      customCommitTypes = None\<rparr>)))"
proof -
  let ?ticked = "map fst (filter snd (zip defaultCommitTypes (tick_types (user_setup w))))"
  let ?custom = "filter_customCommitTypes (enter_custom (user_setup w))"
  have a: "a = \<lparr>aiProvider = aiProvider a, apiToken = apiToken a, commitTypes = ?ticked,
                customCommitTypes = Some ?custom\<rparr>"
    using asked unfolding prompt_questions_def Let_def
    by (auto simp: then_io_def ask_def split: prod.splits completion.splits option.splits if_splits)
  have "\<exists>es' w'. setup_cmd w = (es', Resolved w')
          \<and> fs_files w' (getGlobalConfigPath w)
              = Some (JSON_stringify (answers_json
                  \<lparr>aiProvider = aiProvider a, apiToken = apiToken a,
                   commitTypes = ?ticked @ ?custom, customCommitTypes = None\<rparr>))"
    unfolding setup_cmd_def asked Let_def
    by (subst (1 2 3) a)
       (simp add: then_io_Resolved console_log_def fs_writeFile_def writable)
  then show ?thesis using filter_customCommitTypes_eq by blast
qed

theorem custom_types_follow_the_selected_defaults_witness:
  "fst (prompt_questions example_world)
     = [Ask ''Which AI provider do you want to use?'', Ask ''Enter your API token:'',
        Ask ''Select the commit types you want to use:'',
        Ask ''Enter any additional custom commit types (comma-separated, format: type:description):'']
   \<and> fs_writable example_world (getGlobalConfigPath example_world)
   \<and> filter_customCommitTypes ''build:ci tweaks''
       = [\<lparr>name = Some ''build'', description = Some ''ci tweaks'', checked = None\<rparr>]
   \<and> (\<exists>es' w'.
         setup_cmd example_world = (es', Resolved w')
         \<and> fs_files w' ''/home/u/.mo-commit-config.json''
             = Some (JSON_stringify (answers_json
                 \<lparr>aiProvider = ''Anthropic'', apiToken = ''k'',
                  commitTypes =
                    [\<lparr>name = Some ''feat'', description = Some ''A new feature'',
                      checked = Some True\<rparr>,
                     \<lparr>name = Some ''fix'', description = Some ''A bug fix'',
                      checked = Some True\<rparr>,
                     \<lparr>name = Some ''build'', description = Some ''ci tweaks'',
                      checked = None\<rparr>],
                  customCommitTypes = None\<rparr>)))"
proof -
  let ?a = "\<lparr>aiProvider = ''Anthropic'', apiToken = ''k'',
             commitTypes =
               [\<lparr>name = Some ''feat'', description = Some ''A new feature'', checked = Some True\<rparr>,
                \<lparr>name = Some ''fix'', description = Some ''A bug fix'', checked = Some True\<rparr>],
             customCommitTypes =
               Some [\<lparr>name = Some ''build'', description = Some ''ci tweaks'', checked = None\<rparr>]\<rparr>"
  have events: "fst (prompt_questions example_world)
     = [Ask ''Which AI provider do you want to use?'', Ask ''Enter your API token:'',
        Ask ''Select the commit types you want to use:'',
        Ask ''Enter any additional custom commit types (comma-separated, format: type:description):'']"
    by code_simp
  have answer: "snd (prompt_questions example_world) = Resolved ?a"
    by code_simp
  have asked: "prompt_questions example_world = (fst (prompt_questions example_world), Resolved ?a)"
    using answer by (metis prod.collapse)
  have writable: "fs_writable example_world (getGlobalConfigPath example_world)"
    by (simp add: example_world_def)
  have custom: "filter_customCommitTypes ''build:ci tweaks''
       = [\<lparr>name = Some ''build'', description = Some ''ci tweaks'', checked = None\<rparr>]"
    by code_simp
  have input: "enter_custom (user_setup example_world) = ''build:ci tweaks''"
    by (simp add: example_world_def)
  have ticked: "map fst (filter snd (zip defaultCommitTypes (tick_types (user_setup example_world))))
       = [\<lparr>name = Some ''feat'', description = Some ''A new feature'', checked = Some True\<rparr>,
          \<lparr>name = Some ''fix'', description = Some ''A bug fix'', checked = Some True\<rparr>]"
    by code_simp
  have path: "getGlobalConfigPath example_world = ''/home/u/.mo-commit-config.json''"
    by code_simp
  from custom_types_follow_the_selected_defaults [OF asked writable, THEN conjunct2]
  have "\<exists>es' w'.
         setup_cmd example_world = (es', Resolved w')
         \<and> fs_files w' ''/home/u/.mo-commit-config.json''
             = Some (JSON_stringify (answers_json
                 \<lparr>aiProvider = ''Anthropic'', apiToken = ''k'',
                  commitTypes =
                    [\<lparr>name = Some ''feat'', description = Some ''A new feature'',
                      checked = Some True\<rparr>,
                     \<lparr>name = Some ''fix'', description = Some ''A bug fix'',
                      checked = Some True\<rparr>,
                     \<lparr>name = Some ''build'', description = Some ''ci tweaks'',
                      checked = None\<rparr>],
                  customCommitTypes = None\<rparr>))"
    unfolding input custom ticked path by simp
  with events writable custom show ?thesis by (intro conjI)
qed

subsection \<open>Nothing staged\<close>

text \<open>
  Claim C4. When the configuration is in order and the list of staged paths is empty
  or is the single empty string, the run prints the notice that nothing is staged and
  ends without error. After the two queries of the staging area nothing else happens:
  no staged file is read, no prompt is built, the generation service is not called, and
  no commit is made. (The only file read of the run is the configuration file, before
  the queries.)
\<close>

theorem nothing_staged_short_circuit:
  assumes "argv_setup w \<noteq> Some True"
    and "fs_files w (getGlobalConfigPath w) = Some text"
    and "JSON_parse text = Some config"
    and "get_prop config ''aiProvider'' = Inr (Some (JStr ''Anthropic''))"
    and "getStagedFilesAndDiff w = (es, Resolved (stagedFiles, diff))"
    and "stagedFiles = [] \<or> stagedFiles = [[]]"
  shows "cli w =
           ([Log ''Executing commit...'',
             Access (getGlobalConfigPath w), ReadFile (getGlobalConfigPath w),
             Exec ''git diff --cached --name-only'', Exec ''git diff --cached'',
             Log ''No files in staging. Add files before committing.''],
            Exited, w)"
proof -
  have es: "es = [Exec ''git diff --cached --name-only'', Exec ''git diff --cached'']"
    using assms(5) unfolding getStaged_eq Let_def by (auto split: if_splits)
  have "after_staged w config (stagedFiles, diff)
        = console_log ''No files in staging. Add files before committing.''"
    using assms(6) by (auto simp: after_staged_def nth_opt_def)
  then have "defaultCommand w =
      (header w @ es @ [Log ''No files in staging. Add files before committing.''], Resolved ())"
    using assms(2-5) by (simp add: defaultCommand_config then_io_Resolved console_log_def)
  then show ?thesis using assms(1) es by (simp add: cli_default header_def)
qed

theorem nothing_staged_short_circuit_witness:
  \<open>argv_setup nothing_staged_world \<noteq> Some True
   \<and> fs_files nothing_staged_world (getGlobalConfigPath nothing_staged_world)
       = Some ''{"aiProvider": "Anthropic", "apiToken": "k", "commitTypes": [{"name": "feat", "description": "A new feature"}]}''
   \<and> getStagedFilesAndDiff nothing_staged_world
       = ([Exec ''git diff --cached --name-only'', Exec ''git diff --cached''],
          Resolved ([[]], []))
   \<and> cli nothing_staged_world =
       ([Log ''Executing commit...'',
         Access (getGlobalConfigPath nothing_staged_world),
         ReadFile (getGlobalConfigPath nothing_staged_world),
         Exec ''git diff --cached --name-only'', Exec ''git diff --cached'',
         Log ''No files in staging. Add files before committing.''],
        Exited, nothing_staged_world)\<close>
proof -
  let ?text = \<open>''{"aiProvider": "Anthropic", "apiToken": "k", "commitTypes": [{"name": "feat", "description": "A new feature"}]}''\<close>
  let ?config = "JObj [(''aiProvider'', JStr ''Anthropic''), (''apiToken'', JStr ''k''),
                       (''commitTypes'', JArr [JObj [(''name'', JStr ''feat''),
                                                    (''description'', JStr ''A new feature'')]])]"
  have mode: "argv_setup nothing_staged_world \<noteq> Some True"
    by (simp add: nothing_staged_world_def example_world_def)
  have cfg: "fs_files nothing_staged_world (getGlobalConfigPath nothing_staged_world) = Some ?text"
    by code_simp
  have parsed: "JSON_parse ?text = Some ?config"
    by code_simp
  have provider: "get_prop ?config ''aiProvider'' = Inr (Some (JStr ''Anthropic''))"
    by code_simp
  have staged: "getStagedFilesAndDiff nothing_staged_world
       = ([Exec ''git diff --cached --name-only'', Exec ''git diff --cached''],
          Resolved ([[]], []))"
    by code_simp
  have empty: "[[]] = ([] :: string list) \<or> [[]] = [[] :: string]"
    by simp
  from nothing_staged_short_circuit [OF mode cfg parsed provider staged empty] mode cfg staged
  show ?thesis by (intro conjI)
qed

subsection \<open>The contents of the staged files\<close>

text \<open>
  Claim C5. For a list of staged paths whose files are all readable, the collected
  contents are the concatenation, in the order of the list, of one block
  \<^verbatim>\<open>File: <path>\n<content>\n\n\<close> per file: as many blocks as paths. The files are read
  in that order.
\<close>

theorem files_content_is_the_labeled_blocks:
  assumes "map (fs_files w) paths = map Some texts"
  shows "getFilesContent w paths =
           (map ReadFile paths,
            Resolved (concat (map (\<lambda>(p, t). ''File: '' @ p @ NL @ t @ NL @ NL) (zip paths texts))))
         \<and> length (map (\<lambda>(p, t). ''File: '' @ p @ NL @ t @ NL @ NL) (zip paths texts))
           = length paths"
proof -
  have "length texts = length paths" using assms by (metis length_map)
  then show ?thesis
    using getFilesContent_loop_blocks [OF assms, of "[]"] by (simp add: getFilesContent_def)
qed

theorem files_content_is_the_labeled_blocks_witness:
  "map (fs_files example_world) [''a.js'', ''b.css'']
     = map Some [''console.log(1)'', ''p { }'']
   \<and> getFilesContent example_world [''a.js'', ''b.css'']
     = ([ReadFile ''a.js'', ReadFile ''b.css''],
        Resolved ''File: a.js\<newline>console.log(1)\<newline>\<newline>File: b.css\<newline>p { }\<newline>\<newline>'')"
proof -
  have readable: "map (fs_files example_world) [''a.js'', ''b.css'']
                  = map Some [''console.log(1)'', ''p { }'']"
    by code_simp
  from files_content_is_the_labeled_blocks [OF readable] readable
  show ?thesis by simp
qed

subsection \<open>Diagnostic output of the version-control tool\<close>

text \<open>
  Claim C6. The two queries and the commit treat diagnostic output differently. When
  the query of the staged paths has run and reported an error or any diagnostic output,
  the run stops right there, rejected with the message of that query; the same holds
  for the query of the diff. When a commit command has run without an error, the run
  ends normally and reports the commit as made, and diagnostic output is only logged as
  a warning before that report; only an error of the commit rejects the run, with the
  message of the commit.
\<close>

theorem diagnostics_asymmetry:
  assumes run: "cli w = (trace, ending, w')"
  shows "(Exec ''git diff --cached --name-only'' \<in> set trace
           \<and> (error (child_exec w ''git diff --cached --name-only'') \<noteq> None
                \<or> stderr (child_exec w ''git diff --cached --name-only'') \<noteq> []) \<longrightarrow>
          trace = [Log ''Executing commit...'', Access (getGlobalConfigPath w),
                   ReadFile (getGlobalConfigPath w), Exec ''git diff --cached --name-only'']
          \<and> ending = UnhandledRejection (RejectedWith (''Error getting staged files: ''
               @ (case error (child_exec w ''git diff --cached --name-only'') of
                    Some message \<Rightarrow> message
                  | None \<Rightarrow> stderr (child_exec w ''git diff --cached --name-only'')))))
       \<and> (Exec ''git diff --cached'' \<in> set trace
           \<and> (error (child_exec w ''git diff --cached'') \<noteq> None
                \<or> stderr (child_exec w ''git diff --cached'') \<noteq> []) \<longrightarrow>
          trace = [Log ''Executing commit...'', Access (getGlobalConfigPath w),
                   ReadFile (getGlobalConfigPath w), Exec ''git diff --cached --name-only'',
                   Exec ''git diff --cached'']
          \<and> ending = UnhandledRejection (RejectedWith (''Error getting diff: ''
               @ (case error (child_exec w ''git diff --cached'') of
                    Some message \<Rightarrow> message
                  | None \<Rightarrow> stderr (child_exec w ''git diff --cached'')))))
       \<and> (\<forall>command.
             Exec command \<in> set trace \<and> is_commit command \<longrightarrow>
             (case error (child_exec w command) of
                Some message \<Rightarrow>
                  ending = UnhandledRejection (RejectedWith (''Error making commit: '' @ message))
                  \<and> (\<exists>pre. trace = pre @ [Exec command])
              | None \<Rightarrow>
                  ending = Exited
                  \<and> (\<exists>pre. trace = pre @ Exec command
                        # (if stderr (child_exec w command) \<noteq> []
                           then [Warn (''Warning while making commit: ''
                                       @ stderr (child_exec w command))]
                           else [])
                        @ [Log ''Commit successfully made.''])))"
proof -
  show ?thesis
  proof (intro conjI)
    show "Exec ''git diff --cached --name-only'' \<in> set trace
           \<and> (error (child_exec w ''git diff --cached --name-only'') \<noteq> None
                \<or> stderr (child_exec w ''git diff --cached --name-only'') \<noteq> []) \<longrightarrow>
          trace = [Log ''Executing commit...'', Access (getGlobalConfigPath w),
                   ReadFile (getGlobalConfigPath w), Exec ''git diff --cached --name-only'']
          \<and> ending = UnhandledRejection (RejectedWith (''Error getting staged files: ''
               @ (case error (child_exec w ''git diff --cached --name-only'') of
                    Some message \<Rightarrow> message
                  | None \<Rightarrow> stderr (child_exec w ''git diff --cached --name-only''))))"
      using query_failure [OF run, of "''git diff --cached --name-only''"] by blast
    show "Exec ''git diff --cached'' \<in> set trace
           \<and> (error (child_exec w ''git diff --cached'') \<noteq> None
                \<or> stderr (child_exec w ''git diff --cached'') \<noteq> []) \<longrightarrow>
          trace = [Log ''Executing commit...'', Access (getGlobalConfigPath w),
                   ReadFile (getGlobalConfigPath w), Exec ''git diff --cached --name-only'',
                   Exec ''git diff --cached'']
          \<and> ending = UnhandledRejection (RejectedWith (''Error getting diff: ''
               @ (case error (child_exec w ''git diff --cached'') of
                    Some message \<Rightarrow> message
                  | None \<Rightarrow> stderr (child_exec w ''git diff --cached''))))"
      using query_failure [OF run, of "''git diff --cached''"] by blast
    show "\<forall>command.
             Exec command \<in> set trace \<and> is_commit command \<longrightarrow>
             (case error (child_exec w command) of
                Some message \<Rightarrow>
                  ending = UnhandledRejection (RejectedWith (''Error making commit: '' @ message))
                  \<and> (\<exists>pre. trace = pre @ [Exec command])
              | None \<Rightarrow>
                  ending = Exited
                  \<and> (\<exists>pre. trace = pre @ Exec command
                        # (if stderr (child_exec w command) \<noteq> []
                           then [Warn (''Warning while making commit: ''
                                       @ stderr (child_exec w command))]
                           else [])
                        @ [Log ''Commit successfully made.'']))"
      using commit_run [OF run] by blast
  qed
qed

theorem diagnostics_asymmetry_witness:
  \<open>Exec ''git diff --cached --name-only'' \<in> set (fst (cli noisy_query_world))
   \<and> error (child_exec noisy_query_world ''git diff --cached --name-only'') = None
   \<and> stderr (child_exec noisy_query_world ''git diff --cached --name-only'')
       = ''warning: in the working copy of a.js, LF will be replaced by CRLF''
   \<and> fst (snd (cli noisy_query_world))
       = UnhandledRejection (RejectedWith
           ''Error getting staged files: warning: in the working copy of a.js, LF will be replaced by CRLF'')
   \<and> Exec ''git commit -m "feat: add logging\<newline>\<newline>adds a debug log line"''
       \<in> set (fst (cli example_world))
   \<and> is_commit ''git commit -m "feat: add logging\<newline>\<newline>adds a debug log line"''
   \<and> error (child_exec example_world
        ''git commit -m "feat: add logging\<newline>\<newline>adds a debug log line"'') = None
   \<and> stderr (child_exec example_world
        ''git commit -m "feat: add logging\<newline>\<newline>adds a debug log line"'') = ''hook output''
   \<and> fst (snd (cli example_world)) = Exited
   \<and> (\<exists>pre. fst (cli example_world)
         = pre @ [Exec ''git commit -m "feat: add logging\<newline>\<newline>adds a debug log line"'',
                  Warn ''Warning while making commit: hook output'',
                  Log ''Commit successfully made.''])\<close>
proof -
  let ?q = "''git diff --cached --name-only''"
  let ?c = \<open>''git commit -m "feat: add logging\<newline>\<newline>adds a debug log line"''\<close>
  have run1: "cli noisy_query_world
      = (fst (cli noisy_query_world), fst (snd (cli noisy_query_world)),
         snd (snd (cli noisy_query_world)))"
    by simp
  have run2: "cli example_world
      = (fst (cli example_world), fst (snd (cli example_world)), snd (snd (cli example_world)))"
    by simp
  have q: "Exec ?q \<in> set (fst (cli noisy_query_world))" by code_simp
  have qe: "error (child_exec noisy_query_world ?q) = None" by code_simp
  have qs: "stderr (child_exec noisy_query_world ?q)
            = ''warning: in the working copy of a.js, LF will be replaced by CRLF''"
    by code_simp
  have c: "Exec ?c \<in> set (fst (cli example_world))" by code_simp
  have ic: "is_commit ?c" by code_simp
  have ce: "error (child_exec example_world ?c) = None" by code_simp
  have cs: "stderr (child_exec example_world ?c) = ''hook output''" by code_simp
  from diagnostics_asymmetry [OF run1] q qe qs
  have r1: "fst (snd (cli noisy_query_world))
       = UnhandledRejection (RejectedWith
           ''Error getting staged files: warning: in the working copy of a.js, LF will be replaced by CRLF'')"
    by simp
  from diagnostics_asymmetry [OF run2] c ic
  have "case error (child_exec example_world ?c) of
          Some message \<Rightarrow>
            fst (snd (cli example_world))
              = UnhandledRejection (RejectedWith (''Error making commit: '' @ message))
            \<and> (\<exists>pre. fst (cli example_world) = pre @ [Exec ?c])
        | None \<Rightarrow>
            fst (snd (cli example_world)) = Exited
            \<and> (\<exists>pre. fst (cli example_world) = pre @ Exec ?c
                  # (if stderr (child_exec example_world ?c) \<noteq> []
                     then [Warn (''Warning while making commit: ''
                                 @ stderr (child_exec example_world ?c))]
                     else [])
                  @ [Log ''Commit successfully made.''])"
    by blast
  then have r2: "fst (snd (cli example_world)) = Exited"
    and r3: "\<exists>pre. fst (cli example_world)
         = pre @ [Exec ?c, Warn ''Warning while making commit: hook output'',
                  Log ''Commit successfully made.'']"
    by (simp_all add: ce cs)
  from q qe qs r1 c ic ce cs r2 r3 show ?thesis by (intro conjI)
qed

subsection \<open>A configuration file that cannot be parsed\<close>

text \<open>
  Claim C7, as stated: the failure to parse the configuration file is caught at the top
  of the branch and turned into one message for the user. In the program nothing
  catches it: with a configuration file cut short, the run prints only its first line
  and ends on the unhandled rejection of the SyntaxError.
\<close>

theorem corrupt_configuration_counterexample:
  "fst (cli truncated_config_world)
     = [Log ''Executing commit...'', Access ''/home/u/.mo-commit-config.json'',
        ReadFile ''/home/u/.mo-commit-config.json'']
   \<and> fst (snd (cli truncated_config_world)) = UnhandledRejection SyntaxError"
  by code_simp

text \<open>
  Claim C7, amended. When the configuration file exists and its content is not JSON,
  \<^verbatim>\<open>JSON.parse\<close> throws a SyntaxError that nothing catches: the run ends on the
  unhandled rejection, having printed no message about it. The content \<^verbatim>\<open>null\<close> ends
  the run the same way, on a TypeError, and so does a path that exists but cannot be
  read, on the error of the read. Content that parses but does not name the provider
  \<^verbatim>\<open>Anthropic\<close> ends the run normally with the notice that only Anthropic is
  supported. Only a missing configuration file is caught and turned into a message:
  the run prints that the configuration was not found and ends normally.
\<close>

theorem corrupt_configuration_is_not_caught:
  assumes "argv_setup w \<noteq> Some True"
  shows \<open>(fs_files w (getGlobalConfigPath w) = None \<and> \<not> fs_unreadable w (getGlobalConfigPath w) \<longrightarrow>
            cli w = ([Log ''Executing commit...'', Access (getGlobalConfigPath w),
                      Log ''Configuration not found. Please run "commit --setup" first.''],
                     Exited, w))
       \<and> (fs_files w (getGlobalConfigPath w) = None \<and> fs_unreadable w (getGlobalConfigPath w) \<longrightarrow>
            cli w = ([Log ''Executing commit...'', Access (getGlobalConfigPath w),
                      ReadFile (getGlobalConfigPath w)],
                     UnhandledRejection (FsError (getGlobalConfigPath w)), w))
       \<and> (\<forall>text. fs_files w (getGlobalConfigPath w) = Some text \<longrightarrow>
            (JSON_parse text = None \<longrightarrow>
               cli w = ([Log ''Executing commit...'', Access (getGlobalConfigPath w),
                         ReadFile (getGlobalConfigPath w)],
                        UnhandledRejection SyntaxError, w))
          \<and> (JSON_parse text = Some JNull \<longrightarrow>
               cli w = ([Log ''Executing commit...'', Access (getGlobalConfigPath w),
                         ReadFile (getGlobalConfigPath w)],
                        UnhandledRejection TypeError, w))
          \<and> (\<forall>config provider.
                JSON_parse text = Some config \<and> get_prop config ''aiProvider'' = Inr provider
                \<and> provider \<noteq> Some (JStr ''Anthropic'') \<longrightarrow>
               cli w = ([Log ''Executing commit...'', Access (getGlobalConfigPath w),
                         ReadFile (getGlobalConfigPath w),
                         Log ''This command only works with Anthropic for now.''],
                        Exited, w)))\<close>
  using assms
  by (auto simp: cli_default defaultCommand_config header_def get_prop_def)

theorem corrupt_configuration_is_not_caught_witness:
  \<open>argv_setup (config_world ''{'') \<noteq> Some True
   \<and> fs_files (config_world ''{'') (getGlobalConfigPath (config_world ''{'')) = Some ''{''
   \<and> JSON_parse ''{'' = None
   \<and> cli (config_world ''{'')
       = ([Log ''Executing commit...'', Access (getGlobalConfigPath (config_world ''{'')),
           ReadFile (getGlobalConfigPath (config_world ''{''))],
          UnhandledRejection SyntaxError, config_world ''{'')
   \<and> fs_files (config_world ''null'') (getGlobalConfigPath (config_world ''null'')) = Some ''null''
   \<and> JSON_parse ''null'' = Some JNull
   \<and> cli (config_world ''null'')
       = ([Log ''Executing commit...'', Access (getGlobalConfigPath (config_world ''null'')),
           ReadFile (getGlobalConfigPath (config_world ''null''))],
          UnhandledRejection TypeError, config_world ''null'')
   \<and> fs_files (config_world ''{}'') (getGlobalConfigPath (config_world ''{}'')) = Some ''{}''
   \<and> JSON_parse ''{}'' = Some (JObj [])
   \<and> get_prop (JObj []) ''aiProvider'' = Inr None
   \<and> cli (config_world ''{}'')
       = ([Log ''Executing commit...'', Access (getGlobalConfigPath (config_world ''{}'')),
           ReadFile (getGlobalConfigPath (config_world ''{}'')),
           Log ''This command only works with Anthropic for now.''],
          Exited, config_world ''{}'')
   \<and> fs_files no_config_world (getGlobalConfigPath no_config_world) = None
   \<and> \<not> fs_unreadable no_config_world (getGlobalConfigPath no_config_world)
   \<and> cli no_config_world
       = ([Log ''Executing commit...'', Access (getGlobalConfigPath no_config_world),
           Log ''Configuration not found. Please run "commit --setup" first.''],
          Exited, no_config_world)
   \<and> fs_files unreadable_config_world (getGlobalConfigPath unreadable_config_world) = None
   \<and> fs_unreadable unreadable_config_world (getGlobalConfigPath unreadable_config_world)
   \<and> cli unreadable_config_world
       = ([Log ''Executing commit...'', Access (getGlobalConfigPath unreadable_config_world),
           ReadFile (getGlobalConfigPath unreadable_config_world)],
          UnhandledRejection (FsError (getGlobalConfigPath unreadable_config_world)),
          unreadable_config_world)\<close>
proof -
  have mode: "argv_setup (config_world content) \<noteq> Some True" for content
    by (simp add: config_world_def example_world_def)
  have cfg: "fs_files (config_world content) (getGlobalConfigPath (config_world content))
             = Some content" for content
    using home_path [of "config_world content"]
    by (simp add: config_world_def example_world_def)
  have p1: "JSON_parse ''{'' = None" by code_simp
  have p2: "JSON_parse ''null'' = Some JNull" by code_simp
  have p3: "JSON_parse ''{}'' = Some (JObj [])" by code_simp
  have p4: "get_prop (JObj []) ''aiProvider'' = Inr None" by code_simp
  have r1: "cli (config_world ''{'')
       = ([Log ''Executing commit...'', Access (getGlobalConfigPath (config_world ''{'')),
           ReadFile (getGlobalConfigPath (config_world ''{''))],
          UnhandledRejection SyntaxError, config_world ''{'')"
    using corrupt_configuration_is_not_caught [OF mode, of "''{''"] cfg [of "''{''"] p1 by blast
  have r2: "cli (config_world ''null'')
       = ([Log ''Executing commit...'', Access (getGlobalConfigPath (config_world ''null'')),
           ReadFile (getGlobalConfigPath (config_world ''null''))],
          UnhandledRejection TypeError, config_world ''null'')"
    using corrupt_configuration_is_not_caught [OF mode, of "''null''"] cfg [of "''null''"] p2
    by blast
  have r3: "cli (config_world ''{}'')
       = ([Log ''Executing commit...'', Access (getGlobalConfigPath (config_world ''{}'')),
           ReadFile (getGlobalConfigPath (config_world ''{}'')),
           Log ''This command only works with Anthropic for now.''],
          Exited, config_world ''{}'')"
    using corrupt_configuration_is_not_caught [OF mode, of "''{}''"] cfg [of "''{}''"] p3 p4
    by blast
  have m0: "argv_setup no_config_world \<noteq> Some True"
    by (simp add: no_config_world_def example_world_def)
  have m1: "fs_files no_config_world (getGlobalConfigPath no_config_world) = None"
    by (simp add: no_config_world_def)
  have m2: "\<not> fs_unreadable no_config_world (getGlobalConfigPath no_config_world)"
    by (simp add: no_config_world_def example_world_def)
  have r4: \<open>cli no_config_world
       = ([Log ''Executing commit...'', Access (getGlobalConfigPath no_config_world),
           Log ''Configuration not found. Please run "commit --setup" first.''],
          Exited, no_config_world)\<close>
    using corrupt_configuration_is_not_caught [OF m0] m1 m2 by blast
  have u0: "argv_setup unreadable_config_world \<noteq> Some True"
    by (simp add: unreadable_config_world_def no_config_world_def example_world_def)
  have u1: "fs_files unreadable_config_world (getGlobalConfigPath unreadable_config_world) = None"
    by (simp add: unreadable_config_world_def no_config_world_def)
  have u2: "fs_unreadable unreadable_config_world (getGlobalConfigPath unreadable_config_world)"
    by (simp add: unreadable_config_world_def)
  have r5: "cli unreadable_config_world
       = ([Log ''Executing commit...'', Access (getGlobalConfigPath unreadable_config_world),
           ReadFile (getGlobalConfigPath unreadable_config_world)],
          UnhandledRejection (FsError (getGlobalConfigPath unreadable_config_world)),
          unreadable_config_world)"
    using corrupt_configuration_is_not_caught [OF u0] u1 u2 by blast
  from mode [of "''{''"] cfg [of "''{''"] p1 r1 cfg [of "''null''"] p2 r2
    cfg [of "''{}''"] p3 p4 r3 m1 m2 r4 u1 u2 r5
  show ?thesis by (intro conjI)
qed

subsection \<open>Review of the generated message\<close>

text \<open>
  Claim C8, as stated: the text \<^verbatim>\<open>feat: add x\n\nbody line\<close> is shown with the body
  \<^verbatim>\<open>body line\<close>. The lines after the first are the empty line and \<^verbatim>\<open>body line\<close>;
  rejoined with line breaks they start with a line break.
\<close>

theorem review_body_counterexample:
  "drop 1 (split_on (CHR 0x0A) ''feat: add x\<newline>\<newline>body line'') = [[], ''body line'']
   \<and> join NL (drop 1 (split_on (CHR 0x0A) ''feat: add x\<newline>\<newline>body line'')) = ''\<newline>body line''
   \<and> join NL (drop 1 (split_on (CHR 0x0A) ''feat: add x\<newline>\<newline>body line'')) \<noteq> ''body line''"
  by code_simp

text \<open>
  Claim C8, amended. The text \<^verbatim>\<open>feat: add x\n\nbody line\<close> splits into the subject
  \<^verbatim>\<open>feat: add x\<close> and the remaining lines, the empty line and \<^verbatim>\<open>body line\<close>, which
  are shown rejoined with line breaks as \<^verbatim>\<open>\nbody line\<close>. When the user declines, no
  run executes a commit; a run that asked the question ends normally right after it
  with \<^verbatim>\<open>Commit cancelled.\<close>, and for the text above the trace from the call of the
  generation service on is the review of that subject and body, the question and the
  cancellation.
\<close>

theorem declined_review_commits_nothing:
  assumes run: "cli w = (trace, ending, w')"
    and declined: "\<not> user_confirm w"
  shows "split_on (CHR 0x0A) ''feat: add x\<newline>\<newline>body line'' = [''feat: add x'', [], ''body line'']
       \<and> (\<forall>c. Exec c \<in> set trace \<longrightarrow> \<not> is_commit c)
       \<and> (Ask ''Do you want to use this message?'' \<in> set trace \<longrightarrow>
            ending = Exited
            \<and> (\<exists>pre. trace = pre @ [Ask ''Do you want to use this message?'',
                                     Log ''Commit cancelled.'']))
       \<and> (\<forall>token content.
             ApiCall token content \<in> set trace
             \<and> messages_create w token content = Inr ''feat: add x\<newline>\<newline>body line'' \<longrightarrow>
             (\<exists>pre. trace = pre @
                [ApiCall token content,
                 Log ''\<newline>=== Generated Commit Message ==='',
                 Log ''----------------------------------'',
                 Log ''feat: add x'',
                 Log ''----------------------------------'',
                 Log ''\<newline>body line'',
                 Log ''----------------------------------\<newline>'',
                 Ask ''Do you want to use this message?'',
                 Log ''Commit cancelled.'']))"
proof (intro conjI allI impI)
  show "split_on (CHR 0x0A) ''feat: add x\<newline>\<newline>body line'' = [''feat: add x'', [], ''body line'']"
    by code_simp
next
  fix c
  assume "Exec c \<in> set trace"
  then obtain before after where "trace = before @ Exec c # after"
    by (auto simp: in_set_conv_decomp)
  then show "\<not> is_commit c" using commit_needs_approval [OF run] declined by blast
next
  assume "Ask ''Do you want to use this message?'' \<in> set trace"
  from declined_run [OF run declined this]
  show "ending = Exited"
    and "\<exists>pre. trace = pre @ [Ask ''Do you want to use this message?'', Log ''Commit cancelled.'']"
    by simp_all
next
  fix token content
  assume a: "ApiCall token content \<in> set trace
             \<and> messages_create w token content = Inr ''feat: add x\<newline>\<newline>body line''"
  have d: "display ''feat: add x\<newline>\<newline>body line''
           = [Log ''\<newline>=== Generated Commit Message ==='',
              Log ''----------------------------------'',
              Log ''feat: add x'',
              Log ''----------------------------------'',
              Log ''\<newline>body line'',
              Log ''----------------------------------\<newline>'']"
    by code_simp
  from a generated_run [OF run] obtain pre where
    "trace = pre @ ApiCall token content # fst (review w ''feat: add x\<newline>\<newline>body line'')"
    by blast
  then have "trace = pre @
                [ApiCall token content,
                 Log ''\<newline>=== Generated Commit Message ==='',
                 Log ''----------------------------------'',
                 Log ''feat: add x'',
                 Log ''----------------------------------'',
                 Log ''\<newline>body line'',
                 Log ''----------------------------------\<newline>'',
                 Ask ''Do you want to use this message?'',
                 Log ''Commit cancelled.'']"
    using declined by (simp add: review_declined d)
  then show "\<exists>pre. trace = pre @
                [ApiCall token content,
                 Log ''\<newline>=== Generated Commit Message ==='',
                 Log ''----------------------------------'',
                 Log ''feat: add x'',
                 Log ''----------------------------------'',
                 Log ''\<newline>body line'',
                 Log ''----------------------------------\<newline>'',
                 Ask ''Do you want to use this message?'',
                 Log ''Commit cancelled.'']"
    by blast
qed

theorem declined_review_commits_nothing_witness:
  "\<not> user_confirm declining_world
   \<and> Ask ''Do you want to use this message?'' \<in> set (fst (cli declining_world))
   \<and> fst (snd (cli declining_world)) = Exited
   \<and> ApiCall (Some (JStr ''k''))
        (prompt_content ''- feat: A new feature''
           ''File: a.js\<newline>console.log(1)\<newline>\<newline>'' ''+console.log(1)'')
       \<in> set (fst (cli declining_world))
   \<and> (\<exists>pre. fst (cli declining_world) = pre @
          [ApiCall (Some (JStr ''k''))
             (prompt_content ''- feat: A new feature''
                ''File: a.js\<newline>console.log(1)\<newline>\<newline>'' ''+console.log(1)''),
           Log ''\<newline>=== Generated Commit Message ==='',
           Log ''----------------------------------'',
           Log ''feat: add x'',
           Log ''----------------------------------'',
           Log ''\<newline>body line'',
           Log ''----------------------------------\<newline>'',
           Ask ''Do you want to use this message?'',
           Log ''Commit cancelled.''])"
proof -
  let ?content = "prompt_content ''- feat: A new feature''
                    ''File: a.js\<newline>console.log(1)\<newline>\<newline>'' ''+console.log(1)''"
  have run: "cli declining_world
      = (fst (cli declining_world), fst (snd (cli declining_world)), snd (snd (cli declining_world)))"
    by simp
  have declined: "\<not> user_confirm declining_world"
    by (simp add: declining_world_def)
  have asked: "Ask ''Do you want to use this message?'' \<in> set (fst (cli declining_world))"
    by code_simp
  have api: "ApiCall (Some (JStr ''k'')) ?content \<in> set (fst (cli declining_world))"
    by code_simp
  have response: "messages_create declining_world (Some (JStr ''k'')) ?content
                  = Inr ''feat: add x\<newline>\<newline>body line''"
    by (simp add: declining_world_def)
  note th = declined_review_commits_nothing [OF run declined]
  from th asked have e: "fst (snd (cli declining_world)) = Exited" by blast
  from th api response
  have t: "\<exists>pre. fst (cli declining_world) = pre @
          [ApiCall (Some (JStr ''k'')) ?content,
           Log ''\<newline>=== Generated Commit Message ==='',
           Log ''----------------------------------'',
           Log ''feat: add x'',
           Log ''----------------------------------'',
           Log ''\<newline>body line'',
           Log ''----------------------------------\<newline>'',
           Ask ''Do you want to use this message?'',
           Log ''Commit cancelled.'']"
    by blast
  from declined asked e api t show ?thesis by (intro conjI)
qed

subsection \<open>Saving and loading the configuration\<close>

text \<open>
  Claim C9. Saving a configuration record and loading it back yields an equivalent
  record. For every record \<open>c\<close> of provider, credential and commit types (each with
  its optional name, description and default flag): writing
  \<^verbatim>\<open>JSON.stringify(c, null, 2)\<close> to the configuration file and then evaluating
  \<^verbatim>\<open>JSON.parse(await fs.readFile(configPath, 'utf8'))\<close> gives the value of \<open>c\<close>,
  and that value determines \<open>c\<close>. In particular the record that \<^verbatim>\<open>setup\<close> saves is
  the one a later run loads.
\<close>

theorem saved_configuration_loads_back:
  assumes writable: "fs_writable w (getGlobalConfigPath w)"
  shows "(\<exists>w'. fs_writeFile w (getGlobalConfigPath w) (JSON_stringify (answers_json c))
               = ([WriteFile (getGlobalConfigPath w) (JSON_stringify (answers_json c))], Resolved w')
             \<and> then_io (fs_readFile w' (getGlobalConfigPath w')) JSON_parse_io
               = ([ReadFile (getGlobalConfigPath w)], Resolved (answers_json c)))
       \<and> (\<forall>c'. answers_json c' = answers_json c \<longrightarrow> c' = c)
       \<and> (\<forall>es a. prompt_questions w = (es, Resolved a) \<longrightarrow>
            (\<exists>es' w' saved.
               setup_cmd w = (es', Resolved w')
               \<and> WriteFile (getGlobalConfigPath w) (JSON_stringify (answers_json saved)) \<in> set es'
               \<and> then_io (fs_readFile w' (getGlobalConfigPath w')) JSON_parse_io
                 = ([ReadFile (getGlobalConfigPath w)], Resolved (answers_json saved))))"
proof (intro conjI allI impI)
  have load: "then_io (fs_readFile w' (getGlobalConfigPath w')) JSON_parse_io
        = ([ReadFile (getGlobalConfigPath w)], Resolved (answers_json x))"
    if "w' = w\<lparr>fs_files := (fs_files w)(getGlobalConfigPath w \<mapsto>
                  JSON_stringify (answers_json x))\<rparr>" for w' x
  proof -
    have p: "getGlobalConfigPath w' = getGlobalConfigPath w"
      using that by (simp add: getGlobalConfigPath_def)
    have "fs_files w' (getGlobalConfigPath w) = Some (JSON_stringify (answers_json x))"
      using that by simp
    then show ?thesis
      unfolding p
      by (simp add: fs_readFile_def then_io_Resolved JSON_parse_io_def
          JSON_round_trip [OF no_num_answers])
  qed
  show "\<exists>w'. fs_writeFile w (getGlobalConfigPath w) (JSON_stringify (answers_json c))
               = ([WriteFile (getGlobalConfigPath w) (JSON_stringify (answers_json c))], Resolved w')
             \<and> then_io (fs_readFile w' (getGlobalConfigPath w')) JSON_parse_io
               = ([ReadFile (getGlobalConfigPath w)], Resolved (answers_json c))"
    using load [OF refl, of c] writable by (simp add: fs_writeFile_def)
  show "c' = c" if "answers_json c' = answers_json c" for c'
    using that by (rule answers_json_inj)
  show "\<exists>es' w' saved.
               setup_cmd w = (es', Resolved w')
               \<and> WriteFile (getGlobalConfigPath w) (JSON_stringify (answers_json saved)) \<in> set es'
               \<and> then_io (fs_readFile w' (getGlobalConfigPath w')) JSON_parse_io
                 = ([ReadFile (getGlobalConfigPath w)], Resolved (answers_json saved))"
    if "prompt_questions w = (es, Resolved a)" for es a
  proof -
    from setup_saves [OF that writable] obtain custom where
      s: "setup_cmd w =
               (Log ''Running setup...'' # es
                  @ [WriteFile (getGlobalConfigPath w)
                       (JSON_stringify (answers_json
                          (a\<lparr>commitTypes := commitTypes a @ custom, customCommitTypes := None\<rparr>))),
                     Log (''Configuration saved in '' @ getGlobalConfigPath w)],
                Resolved (w\<lparr>fs_files := (fs_files w)(getGlobalConfigPath w \<mapsto>
                       JSON_stringify (answers_json
                          (a\<lparr>commitTypes := commitTypes a @ custom,
                             customCommitTypes := None\<rparr>)))\<rparr>))"
      by blast
    let ?saved = "a\<lparr>commitTypes := commitTypes a @ custom, customCommitTypes := None\<rparr>"
    have "WriteFile (getGlobalConfigPath w) (JSON_stringify (answers_json ?saved))
          \<in> set (Log ''Running setup...'' # es
                  @ [WriteFile (getGlobalConfigPath w) (JSON_stringify (answers_json ?saved)),
                     Log (''Configuration saved in '' @ getGlobalConfigPath w)])"
      by simp
    then show ?thesis using s load [OF refl, of ?saved] by blast
  qed
qed

theorem saved_configuration_loads_back_witness:
  \<open>fs_writable example_world (getGlobalConfigPath example_world)
   \<and> JSON_stringify (answers_json example_config)
       = ''{\<newline>  "aiProvider": "Anthropic",\<newline>  "apiToken": "k'' @ [CHR 0x5C]
         @ ''"1",\<newline>  "commitTypes": [\<newline>    {\<newline>      "name": "feat",\<newline>''
         @ ''      "description": "A new feature",\<newline>      "checked": true\<newline>    },\<newline>''
         @ ''    {\<newline>      "name": "build",\<newline>      "description": "ci'' @ [CHR 0x5C]
         @ ''ttweaks"\<newline>    }\<newline>  ]\<newline>}''
   \<and> (\<exists>w'. fs_writeFile example_world (getGlobalConfigPath example_world)
               (JSON_stringify (answers_json example_config))
             = ([WriteFile (getGlobalConfigPath example_world)
                   (JSON_stringify (answers_json example_config))], Resolved w')
           \<and> then_io (fs_readFile w' (getGlobalConfigPath w')) JSON_parse_io
             = ([ReadFile (getGlobalConfigPath example_world)],
                Resolved (answers_json example_config)))\<close>
proof -
  have writable: "fs_writable example_world (getGlobalConfigPath example_world)"
    by (simp add: example_world_def)
  have written: \<open>JSON_stringify (answers_json example_config)
       = ''{\<newline>  "aiProvider": "Anthropic",\<newline>  "apiToken": "k'' @ [CHR 0x5C]
         @ ''"1",\<newline>  "commitTypes": [\<newline>    {\<newline>      "name": "feat",\<newline>''
         @ ''      "description": "A new feature",\<newline>      "checked": true\<newline>    },\<newline>''
         @ ''    {\<newline>      "name": "build",\<newline>      "description": "ci'' @ [CHR 0x5C]
         @ ''ttweaks"\<newline>    }\<newline>  ]\<newline>}''\<close>
    by code_simp
  from saved_configuration_loads_back [OF writable, of example_config, THEN conjunct1]
    writable written
  show ?thesis by (intro conjI)
qed

subsection \<open>The list of staged paths is never empty\<close>

text \<open>
  Claim C10. Whenever the query of the staged paths succeeds, the list it returns has
  at least one element, since splitting a string on line breaks never yields an empty
  list; with empty output the list is the single empty string. So the test for length
  zero never holds, and the decision that nothing is staged is the test that the first
  entry is the empty string, which holds exactly when the trimmed output is empty.
\<close>

theorem staged_list_never_empty:
  assumes "getStagedFilesAndDiff w = (es, Resolved (stagedFiles, diff))"
  shows "stagedFiles \<noteq> []
       \<and> length stagedFiles \<noteq> 0
       \<and> ((length stagedFiles = 0 \<or> nth_opt stagedFiles 0 = Some [])
            = (nth_opt stagedFiles 0 = Some []))
       \<and> ((nth_opt stagedFiles 0 = Some [])
            = (trim (stdout (child_exec w ''git diff --cached --name-only'')) = []))
       \<and> (stdout (child_exec w ''git diff --cached --name-only'') = [] \<longrightarrow> stagedFiles = [[]])"
proof -
  let ?out = "stdout (child_exec w ''git diff --cached --name-only'')"
  have files: "stagedFiles = split_on (CHR 0x0A) (trim ?out)"
    using assms unfolding getStaged_eq Let_def by (auto split: if_splits)
  have ne: "stagedFiles \<noteq> []" using files split_on_not_Nil by simp
  have first: "(nth_opt stagedFiles 0 = Some []) = (trim ?out = [])"
    unfolding files first_piece_empty using trim_no_leading_newline by auto
  have empty: "?out = [] \<longrightarrow> stagedFiles = [[]]"
    using files by (auto simp: trim_Nil)
  show ?thesis using ne first empty by auto
qed

theorem staged_list_never_empty_witness:
  "getStagedFilesAndDiff nothing_staged_world
     = ([Exec ''git diff --cached --name-only'', Exec ''git diff --cached''], Resolved ([[]], []))
   \<and> stdout (child_exec nothing_staged_world ''git diff --cached --name-only'') = []
   \<and> nth_opt [[] :: string] 0 = Some []
   \<and> trim (stdout (child_exec nothing_staged_world ''git diff --cached --name-only'')) = []
   \<and> getStagedFilesAndDiff example_world
     = ([Exec ''git diff --cached --name-only'', Exec ''git diff --cached''],
        Resolved ([''a.js''], ''+console.log(1)''))
   \<and> nth_opt [''a.js''] 0 \<noteq> Some []
   \<and> trim (stdout (child_exec example_world ''git diff --cached --name-only'')) \<noteq> []"
proof -
  have s1: "getStagedFilesAndDiff nothing_staged_world
     = ([Exec ''git diff --cached --name-only'', Exec ''git diff --cached''], Resolved ([[]], []))"
    by code_simp
  have o1: "stdout (child_exec nothing_staged_world ''git diff --cached --name-only'') = []"
    by code_simp
  have s2: "getStagedFilesAndDiff example_world
     = ([Exec ''git diff --cached --name-only'', Exec ''git diff --cached''],
        Resolved ([''a.js''], ''+console.log(1)''))"
    by code_simp
  have n1: "nth_opt [[] :: string] 0 = Some []" by (simp add: nth_opt_def)
  have n2: "nth_opt [''a.js''] 0 \<noteq> Some []" by (simp add: nth_opt_def)
  from staged_list_never_empty [OF s1] n1
  have t1: "trim (stdout (child_exec nothing_staged_world ''git diff --cached --name-only'')) = []"
    by blast
  from staged_list_never_empty [OF s2] n2
  have t2: "trim (stdout (child_exec example_world ''git diff --cached --name-only'')) \<noteq> []"
    by blast
  from s1 o1 n1 t1 s2 n2 t2 show ?thesis by (intro conjI)
qed

end
